theory Spec2Isabelle
  imports Main "HOL-Library.Signed_Division"
begin

section \<open>JavaScript values\<close>

text \<open>
  The values that cross the page/host boundary and come back from JSON are modelled by one
  datatype. Numbers in these values are integers (request ids, JSON-RPC codes and the
  lengths of strings and arrays; the chain id, which never crosses the boundary as a
  number, has a type of its own below); strings are lists of 8-bit characters, so a
  character beyond Latin-1 has no counterpart in the model. An object is the list of its
  own properties in insertion order.
\<close>

datatype js = JUndefined | JNull | JBool bool | JNum int | JStr string
  | JArr "js list" | JObj "(string \<times> js) list"

text \<open>A thrown value: an \<^verbatim>\<open>Error\<close> object with its \<^verbatim>\<open>name\<close> and
  \<^verbatim>\<open>message\<close>.\<close>

record js_error =
  err_name :: string
  err_message :: string

definition mk_error :: "string \<Rightarrow> string \<Rightarrow> js_error" where
  "mk_error n m = \<lparr>err_name = n, err_message = m\<rparr>"

text \<open>\<^verbatim>\<open>String(err)\<close> for an error object (\<^verbatim>\<open>Error.prototype.toString\<close>).\<close>

definition error_to_string :: "js_error \<Rightarrow> string" where
  "error_to_string e =
     (if err_name e = [] then err_message e
      else if err_message e = [] then err_name e
      else err_name e @ '': '' @ err_message e)"

fun truthy :: "js \<Rightarrow> bool" where
  "truthy JUndefined = False"
| "truthy JNull = False"
| "truthy (JBool b) = b"
| "truthy (JNum n) = (n \<noteq> 0)"
| "truthy (JStr s) = (s \<noteq> [])"
| "truthy (JArr xs) = True"
| "truthy (JObj ps) = True"

text \<open>Reading a property: \<^verbatim>\<open>v.k\<close> throws a TypeError on \<^verbatim>\<open>undefined\<close> and
  \<^verbatim>\<open>null\<close>. On an object it is the own property or \<^verbatim>\<open>undefined\<close>; strings and
  arrays have a \<^verbatim>\<open>length\<close>. Inherited members (functions such as
  \<^verbatim>\<open>toString\<close>) are not data and read as \<^verbatim>\<open>undefined\<close> here.\<close>

fun get_prop :: "js \<Rightarrow> string \<Rightarrow> js_error + js" where
  "get_prop JUndefined k =
     Inl (mk_error ''TypeError''
       (''Cannot read properties of undefined (reading '' @ [CHR 0x27] @ k @ [CHR 0x27] @ '')''))"
| "get_prop JNull k =
     Inl (mk_error ''TypeError''
       (''Cannot read properties of null (reading '' @ [CHR 0x27] @ k @ [CHR 0x27] @ '')''))"
| "get_prop (JObj ps) k = Inr (case map_of ps k of Some v \<Rightarrow> v | None \<Rightarrow> JUndefined)"
| "get_prop (JStr s) k = Inr (if k = ''length'' then JNum (int (length s)) else JUndefined)"
| "get_prop (JArr xs) k = Inr (if k = ''length'' then JNum (int (length xs)) else JUndefined)"
| "get_prop v k = Inr JUndefined"

text \<open>\<^verbatim>\<open>a || b\<close>.\<close>

definition js_or :: "js \<Rightarrow> js \<Rightarrow> js" where
  "js_or a b = (if truthy a then a else b)"

text \<open>Array destructuring \<^verbatim>\<open>const [x, y] = v\<close> iterates \<open>v\<close>: an array yields its
  elements, a string its characters, anything else in the model is not iterable.\<close>

fun iterate :: "js \<Rightarrow> js_error + js list" where
  "iterate (JArr xs) = Inr xs"
| "iterate (JStr s) = Inr (map (\<lambda>c. JStr [c]) s)"
| "iterate v = Inl (mk_error ''TypeError'' ''params is not iterable'')"

definition element :: "js list \<Rightarrow> nat \<Rightarrow> js" where
  "element xs i = (if i < length xs then xs ! i else JUndefined)"

subsection \<open>Numbers and strings\<close>

definition digit_char :: "nat \<Rightarrow> char" where
  "digit_char d = (if d < 10 then char_of (48 + d) else char_of (87 + d))"

text \<open>\<^verbatim>\<open>n.toString(radix)\<close> for a non-negative integer: most significant digit first,
  lowercase letters above 9, no leading zero.\<close>

function to_radix :: "nat \<Rightarrow> nat \<Rightarrow> string" where
  "to_radix b n =
     (if b < 2 \<or> n < b then [digit_char n]
      else to_radix b (n div b) @ [digit_char (n mod b)])"
  by pat_completeness auto
termination
  by (relation "measure snd") auto

declare to_radix.simps [simp del]

definition int_to_string :: "int \<Rightarrow> string" where
  "int_to_string i = (if i < 0 then ''-'' @ to_radix 10 (nat (- i)) else to_radix 10 (nat i))"

text \<open>
  A JavaScript number is a double. The numbers that the modelled code computes with
  (chain ids, results of \<^verbatim>\<open>parseInt\<close>, byte counts) are \<^verbatim>\<open>NaN\<close>, an infinity,
  or a double whose value is an integer; \<open>Num i\<close> stands for the double of value
  \<open>i\<close>.
\<close>

datatype js_number = NaN | PosInfinity | NegInfinity | Num int

text \<open>
  \<^verbatim>\<open>n.toString(radix)\<close>. Up to \<^verbatim>\<open>2^53\<close> in magnitude every integer is a double
  and the result is the numeral of the integer. Beyond that the decimal text is the
  shortest one that reads back as the same double, with trailing zeros or, from
  \<^verbatim>\<open>1e21\<close>, an exponent, and the text in another radix is left to the engine by
  the language definition. The model takes the text of such an integer from the
  environment: the printer \<open>pr\<close> gets the radix and the value.
\<close>

type_synonym number_printer = "nat \<Rightarrow> int \<Rightarrow> string"

definition number_to_radix :: "number_printer \<Rightarrow> nat \<Rightarrow> js_number \<Rightarrow> string" where
  "number_to_radix pr b n =
     (case n of
        NaN \<Rightarrow> ''NaN''
      | PosInfinity \<Rightarrow> ''Infinity''
      | NegInfinity \<Rightarrow> ''-Infinity''
      | Num i \<Rightarrow>
          if \<bar>i\<bar> \<le> 2 ^ 53 then
            (if i < 0 then ''-'' @ to_radix b (nat (- i)) else to_radix b (nat i))
          else pr b i)"

text \<open>\<^verbatim>\<open>String(n)\<close> of a number, which is also what a template literal applies.\<close>

definition number_text :: "number_printer \<Rightarrow> js_number \<Rightarrow> string" where
  "number_text pr n = number_to_radix pr 10 n"

fun join :: "string \<Rightarrow> string list \<Rightarrow> string" where
  "join sep [] = []"
| "join sep [x] = x"
| "join sep (x # y # ys) = x @ sep @ join sep (y # ys)"

text \<open>\<^verbatim>\<open>String(v)\<close>, which is also what a template literal applies.\<close>

fun js_to_string :: "js \<Rightarrow> string" where
  "js_to_string JUndefined = ''undefined''"
| "js_to_string JNull = ''null''"
| "js_to_string (JBool b) = (if b then ''true'' else ''false'')"
| "js_to_string (JNum n) = int_to_string n"
| "js_to_string (JStr s) = s"
| "js_to_string (JArr xs) =
     join '','' (map (\<lambda>x. if x = JUndefined \<or> x = JNull then [] else js_to_string x) xs)"
| "js_to_string (JObj ps) = ''[object Object]''"

subsection \<open>JSON.stringify\<close>

definition hex4 :: "nat \<Rightarrow> string" where
  "hex4 n = [digit_char (n div 4096 mod 16), digit_char (n div 256 mod 16),
             digit_char (n div 16 mod 16), digit_char (n mod 16)]"

definition json_escape :: "char \<Rightarrow> string" where
  "json_escape c =
     (let n = (of_char c :: nat) in
      if n = 34 then [CHR 0x5C, CHR 0x22]
      else if n = 92 then [CHR 0x5C, CHR 0x5C]
      else if n = 8 then [CHR 0x5C, CHR ''b'']
      else if n = 12 then [CHR 0x5C, CHR ''f'']
      else if n = 10 then [CHR 0x5C, CHR ''n'']
      else if n = 13 then [CHR 0x5C, CHR ''r'']
      else if n = 9 then [CHR 0x5C, CHR ''t'']
      else if n < 32 then [CHR 0x5C, CHR ''u''] @ hex4 n
      else [c])"

definition json_quote :: "string \<Rightarrow> string" where
  "json_quote s = [CHR 0x22] @ concat (map json_escape s) @ [CHR 0x22]"

text \<open>The text of a value inside a JSON document: \<^verbatim>\<open>undefined\<close> in an array is
  written \<^verbatim>\<open>null\<close>, a property whose value is \<^verbatim>\<open>undefined\<close> is left out.
  The properties of an object are written in the order of the list.\<close>

fun json_text :: "js \<Rightarrow> string" where
  "json_text JUndefined = ''null''"
| "json_text JNull = ''null''"
| "json_text (JBool b) = (if b then ''true'' else ''false'')"
| "json_text (JNum n) = int_to_string n"
| "json_text (JStr s) = json_quote s"
| "json_text (JArr xs) = ''['' @ join '','' (map json_text xs) @ '']''"
| "json_text (JObj ps) =
     ''{'' @ join '','' (map (\<lambda>p. json_quote (fst p) @ '':'' @ json_text (snd p))
                          (filter (\<lambda>p. snd p \<noteq> JUndefined) ps)) @ ''}''"

text \<open>\<^verbatim>\<open>JSON.stringify(v)\<close>: \<^verbatim>\<open>undefined\<close> at the top has no text.\<close>

definition json_stringify :: "js \<Rightarrow> string option" where
  "json_stringify v = (if v = JUndefined then None else Some (json_text v))"

section \<open>RPC proxy: display of a signed message\<close>

text \<open>
  \<^verbatim>\<open>tryDecodeUtf8\<close> (rpc-proxy.ts):
  \<^verbatim>\<open>
  function tryDecodeUtf8(hex: string): string {
    try {
      if (hex.startsWith('0x')) {
        const bytes = Buffer.from(hex.slice(2), 'hex');
        const text = bytes.toString('utf8');
        if (/^[\x20-\x7E\n\r\t]+$/.test(text)) return text;
      }
      return hex;
    } catch { return hex; }
  }
  \<close>
  \<^verbatim>\<open>Buffer.from(s, 'hex')\<close> decodes pairs of hexadecimal digits and stops at the first
  pair that is not one; a trailing single character is dropped.
\<close>

definition unhex :: "char \<Rightarrow> nat option" where
  "unhex c =
     (let n = (of_char c :: nat) in
      if 48 \<le> n \<and> n \<le> 57 then Some (n - 48)
      else if 97 \<le> n \<and> n \<le> 102 then Some (n - 87)
      else if 65 \<le> n \<and> n \<le> 70 then Some (n - 55)
      else None)"

fun hex_decode :: "string \<Rightarrow> nat list" where
  "hex_decode (a # b # cs) =
     (case (unhex a, unhex b) of
        (Some x, Some y) \<Rightarrow> (16 * x + y) # hex_decode cs
      | _ \<Rightarrow> [])"
| "hex_decode cs = []"

text \<open>
  \<^verbatim>\<open>bytes.toString('utf8')\<close> decodes UTF-8 and puts U+FFFD in place of every
  ill-formed sequence. The decoder below is the one of the Encoding Standard: it keeps
  the number of continuation bytes still needed, the code point built so far, and the
  bounds the next continuation byte has to respect. A byte that breaks a sequence yields
  U+FFFD and is then read again as the start of a new sequence. The byte order mark is
  kept.
\<close>

datatype utf8_lead = Emit nat | Begin nat nat nat nat | Invalid

definition utf8_lead :: "nat \<Rightarrow> utf8_lead" where
  "utf8_lead b =
     (if b \<le> 0x7F then Emit b
      else if 0xC2 \<le> b \<and> b \<le> 0xDF then Begin 1 (b mod 32) 0x80 0xBF
      else if 0xE0 \<le> b \<and> b \<le> 0xEF then
        Begin 2 (b mod 16) (if b = 0xE0 then 0xA0 else 0x80) (if b = 0xED then 0x9F else 0xBF)
      else if 0xF0 \<le> b \<and> b \<le> 0xF4 then
        Begin 3 (b mod 8) (if b = 0xF0 then 0x90 else 0x80) (if b = 0xF4 then 0x8F else 0xBF)
      else Invalid)"

fun utf8_decode :: "nat \<Rightarrow> nat \<Rightarrow> nat \<Rightarrow> nat \<Rightarrow> nat list \<Rightarrow> nat list" where
  "utf8_decode needed cp lower upper [] = (if needed = 0 then [] else [0xFFFD])"
| "utf8_decode needed cp lower upper (b # bs) =
     (if needed \<noteq> 0 \<and> lower \<le> b \<and> b \<le> upper then
        (if needed = 1 then (cp * 64 + b mod 64) # utf8_decode 0 0 0x80 0xBF bs
         else utf8_decode (needed - 1) (cp * 64 + b mod 64) 0x80 0xBF bs)
      else
        (if needed \<noteq> 0 then [0xFFFD] else []) @
        (case utf8_lead b of
           Emit c \<Rightarrow> c # utf8_decode 0 0 0x80 0xBF bs
         | Begin n c lo hi \<Rightarrow> utf8_decode n c lo hi bs
         | Invalid \<Rightarrow> 0xFFFD # utf8_decode 0 0 0x80 0xBF bs))"

text \<open>An invariant of the decoder between two bytes, used to show that a sequence of
  several bytes never decodes to an ASCII character: the code point under construction
  is already large enough, or the bounds on the next byte make it so.\<close>

definition utf8_inv :: "nat \<Rightarrow> nat \<Rightarrow> nat \<Rightarrow> nat \<Rightarrow> bool" where
  "utf8_inv needed cp lower upper =
     (needed = 0 \<or> (128 \<le> lower \<and> upper \<le> 191 \<and>
        (2 \<le> cp \<or> (2 \<le> needed \<and> (1 \<le> cp \<or> 130 \<le> lower)))))"

text \<open>A JavaScript string is a sequence of UTF-16 code units, and the regular expression
  (no \<^verbatim>\<open>u\<close> flag) tests code units.\<close>

definition utf16_units :: "nat \<Rightarrow> nat list" where
  "utf16_units cp =
     (if cp < 0x10000 then [cp]
      else [0xD800 + (cp - 0x10000) div 0x400, 0xDC00 + (cp - 0x10000) mod 0x400])"

definition buffer_to_string :: "nat list \<Rightarrow> nat list" where
  "buffer_to_string bytes = concat (map utf16_units (utf8_decode 0 0 0x80 0xBF bytes))"

definition printable_unit :: "nat \<Rightarrow> bool" where
  "printable_unit u = ((0x20 \<le> u \<and> u \<le> 0x7E) \<or> u = 10 \<or> u = 13 \<or> u = 9)"

text \<open>\<^verbatim>\<open>/^[\x20-\x7E\n\r\t]+$/.test(text)\<close>: at least one unit, every unit in the class.\<close>

definition test_printable :: "nat list \<Rightarrow> bool" where
  "test_printable text = (text \<noteq> [] \<and> list_all printable_unit text)"

definition starts_with :: "string \<Rightarrow> string \<Rightarrow> bool" where
  "starts_with s p = (take (length p) s = p)"

text \<open>The argument is whatever the page passed as first parameter. On a value that is
  not a string \<^verbatim>\<open>hex.startsWith\<close> throws, and the \<^verbatim>\<open>catch\<close> returns the
  value as it is.\<close>

fun tryDecodeUtf8 :: "js \<Rightarrow> js" where
  "tryDecodeUtf8 (JStr hex) =
     (if starts_with hex ''0x'' then
        (let bytes = hex_decode (drop 2 hex);
             text = buffer_to_string bytes
         in if test_printable text then JStr (map char_of text) else JStr hex)
      else JStr hex)"
| "tryDecodeUtf8 v = v"

section \<open>RPC proxy: the dispatcher\<close>

text \<open>The configuration of a session (types.ts). The chain id is a JavaScript number.\<close>

record wallet =
  wallet_name :: string
  address :: string
  privateKey :: string

record chain =
  chain_id :: js_number
  chain_name :: string
  hexId :: string
  rpc :: string

record capture_config =
  wallet :: wallet
  chain :: chain
  url :: string
  captureId :: string
  figmaEndpoint :: string

text \<open>
  What the dispatcher calls outside this repository is gathered in one record, so that
  every statement about the dispatcher holds for any behaviour of these parts:
  the key library (\<^verbatim>\<open>privateKeyToAccount\<close>, \<^verbatim>\<open>account.signMessage\<close>,
  \<^verbatim>\<open>account.signTypedData\<close>, \<^verbatim>\<open>walletClient.sendTransaction\<close>), the built-ins
  \<^verbatim>\<open>BigInt\<close>, \<^verbatim>\<open>JSON.parse\<close> and \<^verbatim>\<open>JSON.stringify(v, null, 2)\<close>, the
  floating-point text of \<^verbatim>\<open>Number(bi) / 1e18\<close>, the text of an integer beyond
  \<^verbatim>\<open>2^53\<close>, and the upstream node answering
  \<^verbatim>\<open>fetch\<close> followed by \<^verbatim>\<open>response.json()\<close>.
\<close>

record send_args =
  send_to :: js
  send_data :: js
  send_value :: "int option"
  send_gas :: "int option"

datatype http_reply = FetchFailed js_error | BodyNotJson js_error | Body js

record runtime =
  privateKeyToAccount :: "string \<Rightarrow> js_error + string"
  signMessage :: "js \<Rightarrow> js_error + js"
  signTypedData :: "js \<Rightarrow> js_error + js"
  sendTransaction :: "send_args \<Rightarrow> js_error + js"
  to_bigint :: "js \<Rightarrow> js_error + int"
  number_over_1e18 :: "int \<Rightarrow> string"
  large_number_text :: number_printer
  json_parse :: "js \<Rightarrow> js_error + js"
  json_pretty :: "js \<Rightarrow> js"
  post_json :: "string \<Rightarrow> string \<Rightarrow> http_reply"

text \<open>A \<^verbatim>\<open>TxRequest\<close>. The field \<open>tx_sign\<close> is what calling the closure
  \<^verbatim>\<open>sign\<close> would produce; \<^verbatim>\<open>resolve\<close> and \<^verbatim>\<open>reject\<close> are the two handles of
  the promise the dispatcher awaits, and a listener uses them through its actions below.\<close>

record tx_request =
  tx_id :: int
  tx_method :: string
  tx_params :: js
  tx_display :: "(string \<times> js) list"
  tx_sign :: "js_error + js"

text \<open>What a listener of \<^verbatim>\<open>'tx:request'\<close> does with a request: it calls
  \<^verbatim>\<open>resolve\<close> and \<^verbatim>\<open>reject\<close> any number of times and may end by throwing.
  \<open>later\<close> is what the approver does with the request after \<^verbatim>\<open>emit\<close> has
  returned.\<close>

datatype action = Resolve js | Reject js_error | Throw js_error

record approver =
  listeners :: "(tx_request \<Rightarrow> action list) list"
  later :: "tx_request \<Rightarrow> action list"

datatype settled = Pending | Fulfilled js | Rejected js_error

text \<open>A promise keeps the first settlement; an exception ends the callback.\<close>

fun run_actions :: "action list \<Rightarrow> settled \<Rightarrow> settled \<times> js_error option" where
  "run_actions [] st = (st, None)"
| "run_actions (Resolve v # as) st = run_actions as (if st = Pending then Fulfilled v else st)"
| "run_actions (Reject e # as) st = run_actions as (if st = Pending then Rejected e else st)"
| "run_actions (Throw e # as) st = (st, Some e)"

text \<open>\<^verbatim>\<open>events.emit('tx:request', request)\<close> calls the listeners in order; an exception
  of a listener leaves \<^verbatim>\<open>emit\<close> and the listeners after it are not called.\<close>

fun emit_tx :: "(tx_request \<Rightarrow> action list) list \<Rightarrow> tx_request \<Rightarrow> settled
    \<Rightarrow> settled \<times> js_error option" where
  "emit_tx [] req st = (st, None)"
| "emit_tx (l # ls) req st =
     (case run_actions (l req) st of
        (st', Some e) \<Rightarrow> (st', Some e)
      | (st', None) \<Rightarrow> emit_tx ls req st')"

text \<open>\<^verbatim>\<open>new Promise((resolve, reject) => { ...; events.emit('tx:request', request); })\<close>:
  an exception that leaves the executor rejects the promise unless it is settled.\<close>

definition executor_state :: "settled \<times> js_error option \<Rightarrow> settled" where
  "executor_state r =
     (case r of
        (st, Some e) \<Rightarrow> (if st = Pending then Rejected e else st)
      | (st, None) \<Rightarrow> st)"

definition approve :: "approver \<Rightarrow> tx_request \<Rightarrow> settled" where
  "approve ap req =
     fst (run_actions (later ap req) (executor_state (emit_tx (listeners ap) req Pending)))"

datatype outcome = Returned js | Threw js_error | NeverSettles

datatype effect = EmitTxRequest tx_request | HttpPost string string | SignCalled string

fun await :: "settled \<Rightarrow> outcome" where
  "await Pending = NeverSettles"
| "await (Fulfilled v) = Returned v"
| "await (Rejected e) = Threw e"

fun of_result :: "js_error + js \<Rightarrow> outcome" where
  "of_result (Inl e) = Threw e"
| "of_result (Inr v) = Returned v"

text \<open>\<^verbatim>\<open>catch (err) { throw new Error(err.message || String(err)); }\<close>\<close>

definition rethrow :: "js_error \<Rightarrow> js_error" where
  "rethrow e = mk_error ''Error'' (if err_message e \<noteq> [] then err_message e else error_to_string e)"

definition nullish :: "js \<Rightarrow> bool" where
  "nullish v = (v = JUndefined \<or> v = JNull)"

text \<open>A property of a value that is known not to be \<^verbatim>\<open>undefined\<close> or \<^verbatim>\<open>null\<close>.\<close>

definition read_prop :: "js \<Rightarrow> string \<Rightarrow> js" where
  "read_prop v k = (case get_prop v k of Inr x \<Rightarrow> x | Inl e \<Rightarrow> JUndefined)"

subsection \<open>personal\_sign\<close>

definition personal_sign_case :: "runtime \<Rightarrow> approver \<Rightarrow> int \<Rightarrow> string \<Rightarrow> js
    \<Rightarrow> outcome \<times> effect list \<times> int" where
  "personal_sign_case rt ap requestIdCounter method params =
     (case iterate params of
        Inl e \<Rightarrow> (Threw e, [], requestIdCounter)
      | Inr xs \<Rightarrow>
          (let message = element xs 0;
               sign = signMessage rt message
           in if listeners ap \<noteq> [] then
                (let request = \<lparr>tx_id = requestIdCounter + 1, tx_method = method,
                       tx_params = params,
                       tx_display = [(''message'', tryDecodeUtf8 message)],
                       tx_sign = sign\<rparr>
                 in (await (approve ap request), [EmitTxRequest request], requestIdCounter + 1))
              else (of_result sign, [SignCalled method], requestIdCounter)))"

subsection \<open>eth\_signTypedData\_v4\<close>

text \<open>\<^verbatim>\<open>parsed.domain?.name || 'Unknown'\<close> and its neighbours. Only the first property
  access can throw (on \<^verbatim>\<open>null\<close>, which \<^verbatim>\<open>JSON.parse\<close> can return).\<close>

definition typed_display :: "runtime \<Rightarrow> js \<Rightarrow> js_error + (string \<times> js) list" where
  "typed_display rt parsed =
     (case get_prop parsed ''domain'' of
        Inl e \<Rightarrow> Inl e
      | Inr domain \<Rightarrow>
          Inr [(''domain'',
                  js_or (if nullish domain then JUndefined else read_prop domain ''name'') (JStr ''Unknown'')),
               (''primaryType'', js_or (read_prop parsed ''primaryType'') (JStr ''Unknown'')),
               (''data'', json_pretty rt (read_prop parsed ''message''))])"

definition typed_data_case :: "runtime \<Rightarrow> approver \<Rightarrow> int \<Rightarrow> string \<Rightarrow> js
    \<Rightarrow> outcome \<times> effect list \<times> int" where
  "typed_data_case rt ap requestIdCounter method params =
     (case iterate params of
        Inl e \<Rightarrow> (Threw e, [], requestIdCounter)
      | Inr xs \<Rightarrow>
          (let typedDataJson = element xs 1 in
           case json_parse rt typedDataJson of
             Inl e \<Rightarrow> (Threw e, [], requestIdCounter)
           | Inr parsed \<Rightarrow>
               (let sign = signTypedData rt parsed
                in if listeners ap \<noteq> [] then
                     (case typed_display rt parsed of
                        Inl e \<Rightarrow> (Threw e, [], requestIdCounter + 1)
                      | Inr d \<Rightarrow>
                          (let request = \<lparr>tx_id = requestIdCounter + 1, tx_method = method,
                                 tx_params = params, tx_display = d, tx_sign = sign\<rparr>
                           in (await (approve ap request), [EmitTxRequest request],
                               requestIdCounter + 1)))
                   else (of_result sign, [SignCalled method], requestIdCounter))))"

subsection \<open>eth\_sendTransaction\<close>

text \<open>\<^verbatim>\<open>x ? BigInt(x) : undefined\<close>\<close>

definition opt_bigint :: "runtime \<Rightarrow> js \<Rightarrow> js_error + int option" where
  "opt_bigint rt x =
     (if truthy x then (case to_bigint rt x of Inl e \<Rightarrow> Inl e | Inr n \<Rightarrow> Inr (Some n))
      else Inr None)"

text \<open>The closure \<^verbatim>\<open>sign\<close> of the transaction case: the argument object is built
  first (\<^verbatim>\<open>tx.to\<close> throws when there is no transaction object), then sent.\<close>

definition send_sign :: "runtime \<Rightarrow> js \<Rightarrow> js_error + js" where
  "send_sign rt tx =
     (case get_prop tx ''to'' of
        Inl e \<Rightarrow> Inl e
      | Inr to \<Rightarrow>
          (case opt_bigint rt (read_prop tx ''value'') of
             Inl e \<Rightarrow> Inl e
           | Inr v \<Rightarrow>
               (case opt_bigint rt (read_prop tx ''gas'') of
                  Inl e \<Rightarrow> Inl e
                | Inr g \<Rightarrow>
                    sendTransaction rt
                      \<lparr>send_to = to, send_data = read_prop tx ''data'', send_value = v,
                        send_gas = g\<rparr>)))"

definition formatWei :: "runtime \<Rightarrow> js \<Rightarrow> js" where
  "formatWei rt v =
     (if \<not> truthy v \<or> v = JStr ''0x0'' \<or> v = JStr ''0x'' then JStr ''0 ETH''
      else (case to_bigint rt v of
              Inr bi \<Rightarrow> JStr (number_over_1e18 rt bi @ '' ETH'')
            | Inl e \<Rightarrow> v))"

text \<open>\<^verbatim>\<open>tx.data.slice(0, 20)\<close>: strings and arrays have \<^verbatim>\<open>slice\<close>; on any other
  value the call is a TypeError.\<close>

fun slice20 :: "js \<Rightarrow> js_error + js" where
  "slice20 (JStr s) = Inr (JStr (take 20 s))"
| "slice20 (JArr xs) = Inr (JArr (take 20 xs))"
| "slice20 v = Inl (mk_error ''TypeError'' ''tx.data.slice is not a function'')"

text \<open>\<^verbatim>\<open>Math.floor((tx.data.length - 2) / 2)\<close>; where there is no length the number is
  \<^verbatim>\<open>NaN\<close>.\<close>

fun data_bytes :: "js \<Rightarrow> js_number" where
  "data_bytes (JStr s) = Num ((int (length s) - 2) div 2)"
| "data_bytes (JArr xs) = Num ((int (length xs) - 2) div 2)"
| "data_bytes v = NaN"

definition send_display :: "runtime \<Rightarrow> js \<Rightarrow> js \<Rightarrow> js_error + (string \<times> js) list" where
  "send_display rt tx data =
     (let dataBytes = (if truthy data then data_bytes data else Num 0) in
      case (if truthy data
            then (case slice20 data of
                    Inl e \<Rightarrow> Inl e
                  | Inr sl \<Rightarrow> Inr (JStr (js_to_string sl @ ''...  (''
                                           @ number_text (large_number_text rt) dataBytes
                                           @ '' bytes)'')))
            else Inr (JStr ''(none)'')) of
        Inl e \<Rightarrow> Inl e
      | Inr d \<Rightarrow>
          Inr [(''to'', js_or (read_prop tx ''to'') (JStr ''(contract creation)'')),
               (''value'', formatWei rt (read_prop tx ''value'')),
               (''data'', d),
               (''gas'', js_or (read_prop tx ''gas'') (JStr ''auto''))])"

text \<open>In the executor \<^verbatim>\<open>dataBytes\<close> is computed before the request literal, so a
  missing transaction object throws before the counter is incremented; the
  \<^verbatim>\<open>slice\<close> call sits inside the literal, after \<^verbatim>\<open>id: ++requestIdCounter\<close>.\<close>

definition send_transaction_case :: "runtime \<Rightarrow> approver \<Rightarrow> int \<Rightarrow> string \<Rightarrow> js
    \<Rightarrow> outcome \<times> effect list \<times> int" where
  "send_transaction_case rt ap requestIdCounter method params =
     (case iterate params of
        Inl e \<Rightarrow> (Threw e, [], requestIdCounter)
      | Inr xs \<Rightarrow>
          (let tx = element xs 0;
               sign = send_sign rt tx
           in if listeners ap \<noteq> [] then
                (case get_prop tx ''data'' of
                   Inl e \<Rightarrow> (Threw e, [], requestIdCounter)
                 | Inr data \<Rightarrow>
                     (case send_display rt tx data of
                        Inl e \<Rightarrow> (Threw e, [], requestIdCounter + 1)
                      | Inr d \<Rightarrow>
                          (let request = \<lparr>tx_id = requestIdCounter + 1, tx_method = method,
                                 tx_params = params, tx_display = d, tx_sign = sign\<rparr>
                           in (await (approve ap request), [EmitTxRequest request],
                               requestIdCounter + 1))))
              else (of_result sign, [SignCalled method], requestIdCounter)))"

subsection \<open>Forwarding\<close>

definition rpc_body :: "string \<Rightarrow> js \<Rightarrow> js" where
  "rpc_body method params =
     JObj [(''jsonrpc'', JStr ''2.0''), (''id'', JNum 1), (''method'', JStr method),
           (''params'', js_or params (JArr []))]"

definition forward_case :: "runtime \<Rightarrow> capture_config \<Rightarrow> int \<Rightarrow> string \<Rightarrow> js
    \<Rightarrow> outcome \<times> effect list \<times> int" where
  "forward_case rt config requestIdCounter method params =
     (let body = json_text (rpc_body method params) in
      (case post_json rt (rpc (chain config)) body of
         FetchFailed e \<Rightarrow> Threw e
       | BodyNotJson e \<Rightarrow> Threw e
       | Body json \<Rightarrow>
           (case get_prop json ''error'' of
              Inl e \<Rightarrow> Threw e
            | Inr err \<Rightarrow>
                if truthy err then Threw (mk_error ''Error'' (json_text err))
                else Returned (read_prop json ''result'')),
       [HttpPost (rpc (chain config)) body], requestIdCounter))"

subsection \<open>The exposed function \_\_rpcProxy\<close>

definition rpcProxy_switch :: "runtime \<Rightarrow> capture_config \<Rightarrow> string \<Rightarrow> approver \<Rightarrow> int
    \<Rightarrow> string \<Rightarrow> js \<Rightarrow> outcome \<times> effect list \<times> int" where
  "rpcProxy_switch rt config account_address ap requestIdCounter method params =
     (if method = ''eth_accounts'' \<or> method = ''eth_requestAccounts'' then
        (Returned (JArr [JStr account_address]), [], requestIdCounter)
      else if method = ''eth_chainId'' then
        (Returned (JStr (hexId (chain config))), [], requestIdCounter)
      else if method = ''net_version'' then
        (Returned (JStr (number_text (large_number_text rt) (chain_id (chain config)))), [],
         requestIdCounter)
      else if method = ''wallet_requestPermissions'' then
        (Returned (JArr [JObj [(''parentCapability'', JStr ''eth_accounts'')]]), [],
         requestIdCounter)
      else if method = ''wallet_getPermissions'' then
        (Returned (JArr [JObj [(''parentCapability'', JStr ''eth_accounts'')]]), [],
         requestIdCounter)
      else if method = ''wallet_switchEthereumChain'' \<or> method = ''wallet_addEthereumChain'' then
        (Returned JNull, [], requestIdCounter)
      else if method = ''personal_sign'' then
        personal_sign_case rt ap requestIdCounter method params
      else if method = ''eth_signTypedData_v4'' then
        typed_data_case rt ap requestIdCounter method params
      else if method = ''eth_sendTransaction'' then
        send_transaction_case rt ap requestIdCounter method params
      else forward_case rt config requestIdCounter method params)"

text \<open>The \<^verbatim>\<open>try\<close> around the switch: whatever is thrown reaches the page as a new
  error that carries the message only.\<close>

definition rpcProxy :: "runtime \<Rightarrow> capture_config \<Rightarrow> string \<Rightarrow> approver \<Rightarrow> int
    \<Rightarrow> string \<Rightarrow> js \<Rightarrow> outcome \<times> effect list \<times> int" where
  "rpcProxy rt config account_address ap requestIdCounter method params =
     (case rpcProxy_switch rt config account_address ap requestIdCounter method params of
        (Threw e, effs, c) \<Rightarrow> (Threw (rethrow e), effs, c)
      | r \<Rightarrow> r)"

text \<open>\<^verbatim>\<open>setupRpcProxy\<close> derives the account from the configured private key and
  exposes the function; when the derivation throws nothing is exposed.\<close>

definition setupRpcProxy :: "runtime \<Rightarrow> capture_config
    \<Rightarrow> js_error + (approver \<Rightarrow> int \<Rightarrow> string \<Rightarrow> js \<Rightarrow> outcome \<times> effect list \<times> int)" where
  "setupRpcProxy rt config =
     (case privateKeyToAccount rt (privateKey (wallet config)) of
        Inl e \<Rightarrow> Inl e
      | Inr account_address \<Rightarrow> Inr (rpcProxy rt config account_address))"

subsection \<open>Vocabulary for the statements about the dispatcher\<close>

definition local_methods :: "string set" where
  "local_methods = {''eth_accounts'', ''eth_requestAccounts'', ''eth_chainId'', ''net_version'',
     ''wallet_requestPermissions'', ''wallet_getPermissions'', ''wallet_switchEthereumChain'',
     ''wallet_addEthereumChain''}"

definition signing_methods :: "string set" where
  "signing_methods = {''personal_sign'', ''eth_signTypedData_v4'', ''eth_sendTransaction''}"


fun posts :: "effect list \<Rightarrow> (string \<times> string) list" where
  "posts [] = []"
| "posts (HttpPost u b # es) = (u, b) # posts es"
| "posts (e # es) = posts es"

text \<open>What the page sees of an outcome of the switch.\<close>

fun page_outcome :: "outcome \<Rightarrow> outcome" where
  "page_outcome (Threw e) = Threw (rethrow e)"
| "page_outcome out = out"

text \<open>The TypeError of reading a property of \<^verbatim>\<open>undefined\<close> or \<^verbatim>\<open>null\<close>.\<close>

definition cannot_read :: "js \<Rightarrow> string \<Rightarrow> js_error" where
  "cannot_read v k =
     mk_error ''TypeError''
       (''Cannot read properties of '' @ js_to_string v @ '' (reading '' @ [CHR 0x27] @ k
        @ [CHR 0x27] @ '')'')"








definition scenario_account :: string where
  "scenario_account = ''0xabcabcabcabcabcabcabcabcabcabcabcabcabcabc''"

text \<open>The environment of the end-to-end scenarios of the specification: the account
  of S1, a signer that answers, and the upstream node of S5.\<close>

definition scenario_runtime :: runtime where
  "scenario_runtime =
     \<lparr>privateKeyToAccount = (\<lambda>k. Inr scenario_account),
      signMessage = (\<lambda>m. Inr (JStr ''0xSIGNED'')),
      signTypedData = (\<lambda>m. Inr (JStr ''0xSIGNED'')),
      sendTransaction = (\<lambda>a. Inr (JStr ''0xHASH'')),
      to_bigint = (\<lambda>v. Inl (mk_error ''SyntaxError'' ''Cannot convert to a BigInt'')),
      number_over_1e18 = (\<lambda>n. ''0''),
      large_number_text = (\<lambda>b n. []),
      json_parse = (\<lambda>v. Inl (mk_error ''SyntaxError'' ''Unexpected token'')),
      json_pretty = (\<lambda>v. JUndefined),
      post_json = (\<lambda>u b. Body (JObj [(''error'',
         JObj [(''code'', JNum (- 32000)), (''message'', JStr ''boom'')])]))\<rparr>"

definition scenario_config :: capture_config where
  "scenario_config =
     \<lparr>wallet = \<lparr>wallet_name = ''w'', address = scenario_account,
                privateKey = ''0x0000000000000000000000000000000000000000000000000000000000000001''\<rparr>,
      chain = \<lparr>chain_id = Num 137, chain_name = ''Polygon'', hexId = ''0x89'',
               rpc = ''https://polygon-rpc.com''\<rparr>,
      url = ''https://app.example'', captureId = ''c1'',
      figmaEndpoint = ''https://mcp.figma.com/mcp/capture/c1/submit''\<rparr>"

text \<open>An approver with one listener that resolves with a fixed value (S3), and no
  approver at all.\<close>

definition scenario_approver :: approver where
  "scenario_approver = \<lparr>listeners = [\<lambda>req. [Resolve (JStr ''0xSIG'')]], later = (\<lambda>req. [])\<rparr>"

definition no_approver :: approver where
  "no_approver = \<lparr>listeners = [], later = (\<lambda>req. [])\<rparr>"

section \<open>Injected wallet provider: the listener registry\<close>

text \<open>
  The script installed by \<^verbatim>\<open>injectWalletProvider\<close> (browser.ts) keeps
  \<^verbatim>\<open>const listeners = {}\<close>, a plain object, and reads \<^verbatim>\<open>listeners[event]\<close>. Such a
  read finds an own property or, failing that, a member inherited from
  \<^verbatim>\<open>Object.prototype\<close>; the inherited members are functions (and, for
  \<^verbatim>\<open>__proto__\<close>, the prototype object): truthy values without \<^verbatim>\<open>push\<close>,
  \<^verbatim>\<open>filter\<close> or \<^verbatim>\<open>forEach\<close>.
\<close>

definition object_prototype_names :: "string list" where
  "object_prototype_names =
     [''constructor'', ''__defineGetter__'', ''__defineSetter__'', ''hasOwnProperty'',
      ''__lookupGetter__'', ''__lookupSetter__'', ''isPrototypeOf'', ''propertyIsEnumerable'',
      ''toString'', ''valueOf'', ''__proto__'', ''toLocaleString'']"

text \<open>A registered callback is a function of the page, known by its identity, or the
  wrapper that \<^verbatim>\<open>once\<close> builds: every call of \<^verbatim>\<open>once\<close> makes a new closure, told
  apart by a serial number.\<close>

datatype callback = PageFn nat | OnceWrapper nat string callback

text \<open>What a function of the page does when it is called: operations on the provider and
  possibly an exception, which ends it. A callback that emits again is outside the
  model.\<close>

datatype cb_action =
    DoOn string callback
  | DoRemoveListener string callback
  | DoRemoveAllListeners "string option"
  | DoThrow js_error

record provider_state =
  registry :: "string \<rightharpoonup> callback list"
  console :: "js_error list"
  invoked :: "(callback \<times> js list) list"
  serial :: nat

datatype slot = Absent | OwnArray "callback list" | Inherited

definition lookup_slot :: "provider_state \<Rightarrow> string \<Rightarrow> slot" where
  "lookup_slot st event =
     (case registry st event of
        Some cbs \<Rightarrow> OwnArray cbs
      | None \<Rightarrow> if event \<in> set object_prototype_names then Inherited else Absent)"

definition not_a_function :: "string \<Rightarrow> js_error" where
  "not_a_function what = mk_error ''TypeError'' (what @ '' is not a function'')"

text \<open>\<^verbatim>\<open>on(event, fn) { if (!listeners[event]) listeners[event] = []; listeners[event].push(fn); }\<close>\<close>

definition provider_on :: "string \<Rightarrow> callback \<Rightarrow> provider_state \<Rightarrow> js_error + provider_state" where
  "provider_on event fn st =
     (case lookup_slot st event of
        Absent \<Rightarrow> Inr (st\<lparr>registry := (registry st)(event \<mapsto> [fn])\<rparr>)
      | OwnArray cbs \<Rightarrow> Inr (st\<lparr>registry := (registry st)(event \<mapsto> cbs @ [fn])\<rparr>)
      | Inherited \<Rightarrow> Inl (not_a_function ''listeners[event].push''))"

text \<open>\<^verbatim>\<open>once(event, fn)\<close> registers a fresh wrapper.\<close>

definition provider_once :: "string \<Rightarrow> callback \<Rightarrow> provider_state \<Rightarrow> js_error + provider_state" where
  "provider_once event fn st =
     provider_on event (OnceWrapper (serial st) event fn) (st\<lparr>serial := Suc (serial st)\<rparr>)"

text \<open>\<^verbatim>\<open>removeListener(event, fn) { if (listeners[event]) listeners[event] =
  listeners[event].filter(f => f !== fn); }\<close>\<close>

definition provider_removeListener :: "string \<Rightarrow> callback \<Rightarrow> provider_state
    \<Rightarrow> js_error + provider_state" where
  "provider_removeListener event fn st =
     (case lookup_slot st event of
        Absent \<Rightarrow> Inr st
      | OwnArray cbs \<Rightarrow>
          Inr (st\<lparr>registry := (registry st)(event \<mapsto> filter (\<lambda>f. f \<noteq> fn) cbs)\<rparr>)
      | Inherited \<Rightarrow> Inl (not_a_function ''listeners[event].filter''))"

text \<open>\<^verbatim>\<open>removeAllListeners(event)\<close>: a falsy event (none, or the empty string) clears
  the whole registry.\<close>

definition provider_removeAllListeners :: "string option \<Rightarrow> provider_state \<Rightarrow> provider_state" where
  "provider_removeAllListeners event st =
     (case event of
        Some e \<Rightarrow> if e \<noteq> [] then st\<lparr>registry := (registry st)(e := None)\<rparr>
                  else st\<lparr>registry := Map.empty\<rparr>
      | None \<Rightarrow> st\<lparr>registry := Map.empty\<rparr>)"

text \<open>The body of a page function: its actions in order; an exception, thrown by the
  function or by a provider operation it calls, ends it.\<close>

fun run_cb_actions :: "cb_action list \<Rightarrow> provider_state \<Rightarrow> js_error option \<times> provider_state" where
  "run_cb_actions [] st = (None, st)"
| "run_cb_actions (DoOn ev fn # as) st =
     (case provider_on ev fn st of
        Inl e \<Rightarrow> (Some e, st)
      | Inr st' \<Rightarrow> run_cb_actions as st')"
| "run_cb_actions (DoRemoveListener ev fn # as) st =
     (case provider_removeListener ev fn st of
        Inl e \<Rightarrow> (Some e, st)
      | Inr st' \<Rightarrow> run_cb_actions as st')"
| "run_cb_actions (DoRemoveAllListeners ev # as) st =
     run_cb_actions as (provider_removeAllListeners ev st)"
| "run_cb_actions (DoThrow e # as) st = (Some e, st)"

text \<open>Calling a registered callback with the emitted arguments. The wrapper of
  \<^verbatim>\<open>once\<close> is \<^verbatim>\<open>(...a) => { provider.removeListener(event, w); fn(...a); }\<close>.\<close>

fun call_callback :: "(nat \<Rightarrow> js list \<Rightarrow> cb_action list) \<Rightarrow> callback \<Rightarrow> js list
    \<Rightarrow> provider_state \<Rightarrow> js_error option \<times> provider_state" where
  "call_callback behaviour (PageFn i) args st = run_cb_actions (behaviour i args) st"
| "call_callback behaviour (OnceWrapper n ev fn) args st =
     (case provider_removeListener ev (OnceWrapper n ev fn) st of
        Inl e \<Rightarrow> (Some e, st)
      | Inr st' \<Rightarrow> call_callback behaviour fn args st')"

text \<open>
  \<^verbatim>\<open>
  emit(event, ...args) {
    (listeners[event] || []).forEach(fn => {
      try { fn(...args); } catch(e) { console.error(e); }
    });
  }
  \<close>
  \<^verbatim>\<open>forEach\<close> walks the array it was called on up to the length that array had at
  the start. During the walk \<^verbatim>\<open>removeListener\<close> and \<^verbatim>\<open>removeAllListeners\<close>
  replace or delete the property and leave that array alone, and \<^verbatim>\<open>on\<close> can only
  append to it, beyond the length already fixed. So the walk visits the callbacks that
  were registered when \<^verbatim>\<open>emit\<close> was called.
\<close>

fun emit_each :: "(nat \<Rightarrow> js list \<Rightarrow> cb_action list) \<Rightarrow> callback list \<Rightarrow> js list
    \<Rightarrow> provider_state \<Rightarrow> provider_state" where
  "emit_each behaviour [] args st = st"
| "emit_each behaviour (fn # fns) args st =
     (let st1 = st\<lparr>invoked := invoked st @ [(fn, args)]\<rparr> in
      case call_callback behaviour fn args st1 of
        (Some e, st2) \<Rightarrow> emit_each behaviour fns args (st2\<lparr>console := console st2 @ [e]\<rparr>)
      | (None, st2) \<Rightarrow> emit_each behaviour fns args st2)"

definition provider_emit :: "(nat \<Rightarrow> js list \<Rightarrow> cb_action list) \<Rightarrow> string \<Rightarrow> js list
    \<Rightarrow> provider_state \<Rightarrow> js_error + provider_state" where
  "provider_emit behaviour event args st =
     (case lookup_slot st event of
        Absent \<Rightarrow> Inr st
      | OwnArray cbs \<Rightarrow> Inr (emit_each behaviour cbs args st)
      | Inherited \<Rightarrow> Inl (not_a_function ''(listeners[event] || []).forEach''))"

definition fresh_provider :: provider_state where
  "fresh_provider = \<lparr>registry = Map.empty, console = [], invoked = [], serial = 0\<rparr>"

section \<open>Session log\<close>

text \<open>
  logger.ts keeps two module variables, \<^verbatim>\<open>sessionFile\<close> and \<^verbatim>\<open>sessionStart\<close>, and
  appends to a file. The state below adds the contents of the files and the number of
  times the clock has been read; the clock itself, the text of a date
  (\<^verbatim>\<open>toISOString\<close>) and the directory \<^verbatim>\<open>LOGS_DIR\<close> belong to the environment. A
  date is its number of milliseconds. Failures of the file system are not modelled.
\<close>

record logger_env =
  logs_dir :: string
  toISOString :: "int \<Rightarrow> string"
  clock :: "nat \<Rightarrow> int"

record logger_state =
  sessionFile :: "string option"
  sessionStart :: "int option"
  files :: "string \<Rightarrow> string"
  ticks :: nat

text \<open>\<^verbatim>\<open>new Date()\<close>\<close>

definition new_date :: "logger_env \<Rightarrow> logger_state \<Rightarrow> int \<times> logger_state" where
  "new_date env st = (clock env (ticks st), st\<lparr>ticks := Suc (ticks st)\<rparr>)"

definition appendFileSync :: "string \<Rightarrow> string \<Rightarrow> logger_state \<Rightarrow> logger_state" where
  "appendFileSync path text st = st\<lparr>files := (files st)(path := files st path @ text)\<rparr>"

text \<open>\<^verbatim>\<open>.replace(/[:.]/g, '-')\<close>\<close>

definition replace_colons_dots :: "string \<Rightarrow> string" where
  "replace_colons_dots s = map (\<lambda>c. if c = CHR '':'' \<or> c = CHR ''.'' then CHR ''-'' else c) s"

text \<open>\<^verbatim>\<open>join(LOGS_DIR, name)\<close> for a name without separators.\<close>

definition path_join :: "string \<Rightarrow> string \<Rightarrow> string" where
  "path_join dir file = dir @ ''/'' @ file"

definition newline :: string where
  "newline = [CHR 0x0A]"

definition startSession :: "logger_env \<Rightarrow> logger_state \<Rightarrow> string \<times> logger_state" where
  "startSession env st =
     (case new_date env st of
        (d, st1) \<Rightarrow>
          (let ts = replace_colons_dots (toISOString env d);
               f = path_join (logs_dir env) (ts @ ''.log'');
               st2 = st1\<lparr>sessionStart := Some d, sessionFile := Some f\<rparr>
           in (f, appendFileSync f (''Session started: '' @ toISOString env d @ newline) st2)))"

text \<open>\<^verbatim>\<open>!sessionFile\<close>: no file, or an empty path.\<close>

definition no_session_file :: "logger_state \<Rightarrow> bool" where
  "no_session_file st = (case sessionFile st of None \<Rightarrow> True | Some f \<Rightarrow> f = [])"

definition log_line :: "string \<Rightarrow> string \<Rightarrow> string" where
  "log_line ts message = ''['' @ ts @ ''] '' @ message @ newline"

definition log :: "logger_env \<Rightarrow> string \<Rightarrow> logger_state \<Rightarrow> logger_state" where
  "log env message st =
     (let st1 = (if no_session_file st then snd (startSession env st) else st) in
      case new_date env st1 of
        (d, st2) \<Rightarrow>
          (case sessionFile st2 of
             Some f \<Rightarrow> appendFileSync f (log_line (toISOString env d) message) st2
           | None \<Rightarrow> st2))"

text \<open>What \<^verbatim>\<open>logError\<close> is given: an \<^verbatim>\<open>Error\<close> with its message and, possibly, a
  stack, or any other value with its string form.\<close>

datatype logged_error = ErrorObject string "string option" | OtherValue string

fun logError :: "logger_env \<Rightarrow> string \<Rightarrow> logged_error \<Rightarrow> logger_state \<Rightarrow> logger_state" where
  "logError env label (ErrorObject msg stack) st =
     (let st1 = log env (''ERROR '' @ label @ '': '' @ msg) st in
      case stack of
        Some s \<Rightarrow> if s \<noteq> [] then log env s st1 else st1
      | None \<Rightarrow> st1)"
| "logError env label (OtherValue text) st = log env (''ERROR '' @ label @ '': '' @ text) st"

record session_info =
  info_url :: string
  info_wallet :: string
  info_chain :: string
  info_captureId :: "string option"

definition logSessionInfo :: "logger_env \<Rightarrow> session_info \<Rightarrow> logger_state \<Rightarrow> logger_state" where
  "logSessionInfo env info st =
     (let st1 = log env (''URL: '' @ info_url info) st;
          st2 = log env (''Wallet: '' @ info_wallet info) st1;
          st3 = log env (''Chain: '' @ info_chain info) st2
      in case info_captureId info of
           Some cid \<Rightarrow> if cid \<noteq> [] then log env (''Capture ID: '' @ cid) st3 else st3
         | None \<Rightarrow> st3)"

text \<open>\<^verbatim>\<open>Math.floor(durationMs / 60000)\<close> and
  \<^verbatim>\<open>Math.floor((durationMs % 60000) / 1000)\<close>: the remainder of JavaScript takes the sign
  of the dividend.\<close>

definition duration_text :: "int \<Rightarrow> string" where
  "duration_text durationMs =
     ''Duration: '' @ int_to_string (durationMs div 60000) @ ''m ''
       @ int_to_string ((durationMs smod 60000) div 1000) @ ''s''"

text \<open>\<^verbatim>\<open>endSession(result)\<close>; the argument is \<^verbatim>\<open>result?.figmaUrl\<close>.\<close>

definition endSession :: "logger_env \<Rightarrow> string option \<Rightarrow> logger_state \<Rightarrow> logger_state" where
  "endSession env figmaUrl st =
     (case sessionStart st of
        None \<Rightarrow> st
      | Some start \<Rightarrow>
          if no_session_file st then st
          else
            (case new_date env st of
               (end_date, st1) \<Rightarrow>
                 (let st2 = log env (''Session ended: '' @ toISOString env end_date) st1;
                      st3 = log env (duration_text (end_date - start)) st2;
                      st4 = (case figmaUrl of
                               Some u \<Rightarrow> if u \<noteq> [] then log env (''Figma URL: '' @ u) st3 else st3
                             | None \<Rightarrow> st3)
                  in st4\<lparr>sessionFile := None, sessionStart := None\<rparr>)))"

text \<open>A whole session: start, a sequence of messages, end.\<close>

fun log_all :: "logger_env \<Rightarrow> string list \<Rightarrow> logger_state \<Rightarrow> logger_state" where
  "log_all env [] st = st"
| "log_all env (m # ms) st = log_all env ms (log env m st)"

definition session :: "logger_env \<Rightarrow> string list \<Rightarrow> string option \<Rightarrow> logger_state
    \<Rightarrow> string \<times> logger_state" where
  "session env messages figmaUrl st =
     (case startSession env st of
        (f, st1) \<Rightarrow> (f, endSession env figmaUrl (log_all env messages st1)))"

text \<open>The lines \<open>[t_k] m_k\<close> for messages logged from clock reading \<open>k\<close> on.\<close>

fun stamped :: "logger_env \<Rightarrow> nat \<Rightarrow> string list \<Rightarrow> string" where
  "stamped env k [] = []"
| "stamped env k (m # ms) = log_line (toISOString env (clock env k)) m @ stamped env (Suc k) ms"

definition scenario_logger_env :: logger_env where
  "scenario_logger_env =
     \<lparr>logs_dir = ''/home/u/.figmaxxing/logs'',
      toISOString = (\<lambda>t. ''2026-11-03T10:00:00.000Z''),
      clock = (\<lambda>n. 61000 * int n)\<rparr>"

definition fresh_logger :: logger_state where
  "fresh_logger = \<lparr>sessionFile = None, sessionStart = None, files = (\<lambda>p. []), ticks = 0\<rparr>"

section \<open>Wallet store\<close>

text \<open>
  wallet.ts reads and writes \<^verbatim>\<open>wallets.json\<close>. The file is absent, unreadable (the
  read or \<^verbatim>\<open>JSON.parse\<close> throws), or holds a JSON array, which \<^verbatim>\<open>loadWallets\<close>
  returns as \<^verbatim>\<open>Wallet[]\<close> without looking at it; the model takes that type at its
  word. The derivation of an address (\<^verbatim>\<open>privateKeyToAccount\<close>) is a parameter and
  can throw; the key that \<^verbatim>\<open>generatePrivateKey()\<close> returns is an argument.
\<close>

datatype wallet_file = Missing | Unreadable | Stored "wallet list"

definition loadWallets :: "wallet_file \<Rightarrow> js_error + wallet list" where
  "loadWallets file =
     (case file of
        Missing \<Rightarrow> Inr []
      | Unreadable \<Rightarrow>
          Inl (mk_error ''Error''
                 ''Could not read wallet file. Delete it and create a new wallet.'')
      | Stored ws \<Rightarrow> Inr ws)"

definition saveWallets :: "wallet list \<Rightarrow> wallet_file" where
  "saveWallets wallets = Stored wallets"

text \<open>\<^verbatim>\<open>/^0x[0-9a-fA-F]{64}$/.test(privateKey)\<close>\<close>

definition is_hex_digit :: "char \<Rightarrow> bool" where
  "is_hex_digit c = (unhex c \<noteq> None)"

definition valid_private_key :: "string \<Rightarrow> bool" where
  "valid_private_key k =
     (take 2 k = ''0x'' \<and> length (drop 2 k) = 64 \<and> list_all is_hex_digit (drop 2 k))"

definition add_wallet :: "wallet \<Rightarrow> wallet_file \<Rightarrow> (js_error + wallet) \<times> wallet_file" where
  "add_wallet w file =
     (case loadWallets file of
        Inl e \<Rightarrow> (Inl e, file)
      | Inr wallets \<Rightarrow> (Inr w, saveWallets (wallets @ [w])))"

definition createWallet :: "(string \<Rightarrow> js_error + string) \<Rightarrow> string \<Rightarrow> string \<Rightarrow> wallet_file
    \<Rightarrow> (js_error + wallet) \<times> wallet_file" where
  "createWallet privateKeyToAddress generated nm file =
     (case privateKeyToAddress generated of
        Inl e \<Rightarrow> (Inl e, file)
      | Inr a \<Rightarrow> add_wallet \<lparr>wallet_name = nm, address = a, privateKey = generated\<rparr> file)"

definition importWallet :: "(string \<Rightarrow> js_error + string) \<Rightarrow> string \<Rightarrow> string \<Rightarrow> wallet_file
    \<Rightarrow> (js_error + wallet) \<times> wallet_file" where
  "importWallet privateKeyToAddress nm key file =
     (if \<not> valid_private_key key then
        (Inl (mk_error ''Error''
                ''Invalid private key. Must be 0x followed by 64 hex characters.''), file)
      else
        (case privateKeyToAddress key of
           Inl e \<Rightarrow> (Inl e, file)
         | Inr a \<Rightarrow> add_wallet \<lparr>wallet_name = nm, address = a, privateKey = key\<rparr> file))"

definition createEphemeralWallet :: "(string \<Rightarrow> js_error + string) \<Rightarrow> string
    \<Rightarrow> js_error + wallet" where
  "createEphemeralWallet privateKeyToAddress generated =
     (case privateKeyToAddress generated of
        Inl e \<Rightarrow> Inl e
      | Inr a \<Rightarrow> Inr \<lparr>wallet_name = ''Ephemeral'', address = a, privateKey = generated\<rparr>)"

definition deleteWallet :: "string \<Rightarrow> wallet_file \<Rightarrow> (js_error + unit) \<times> wallet_file" where
  "deleteWallet addr file =
     (case loadWallets file of
        Inl e \<Rightarrow> (Inl e, file)
      | Inr wallets \<Rightarrow> (Inr (), saveWallets (filter (\<lambda>w. address w \<noteq> addr) wallets)))"

subsection \<open>Vocabulary for the statements about the store\<close>

text \<open>The form \<^verbatim>\<open>/^0x[0-9a-f]{64}$/\<close>, case-insensitive, of the data model.\<close>

definition lower_char :: "char \<Rightarrow> char" where
  "lower_char c =
     (let n = (of_char c :: nat) in if 65 \<le> n \<and> n \<le> 90 then char_of (n + 32) else c)"

definition lower_hex_digit :: "char \<Rightarrow> bool" where
  "lower_hex_digit c =
     (let n = (of_char c :: nat) in (48 \<le> n \<and> n \<le> 57) \<or> (97 \<le> n \<and> n \<le> 102))"

definition canonical_key_form :: "string \<Rightarrow> bool" where
  "canonical_key_form k =
     (map lower_char (take 2 k) = ''0x'' \<and> length (drop 2 k) = 64
      \<and> list_all (\<lambda>c. lower_hex_digit (lower_char c)) (drop 2 k))"

definition wallet_invariant :: "(string \<Rightarrow> js_error + string) \<Rightarrow> wallet \<Rightarrow> bool" where
  "wallet_invariant privateKeyToAddress w =
     (privateKeyToAddress (privateKey w) = Inr (address w) \<and> canonical_key_form (privateKey w))"

text \<open>A file all of whose wallets, when it can be loaded, satisfy the invariant.\<close>

definition file_ok :: "(string \<Rightarrow> js_error + string) \<Rightarrow> wallet_file \<Rightarrow> bool" where
  "file_ok d file = (\<forall>ws. loadWallets file = Inr ws \<longrightarrow> list_all (wallet_invariant d) ws)"

text \<open>The operations that change the file, and a history of them from a given file. A
  failed operation leaves the file as it was.\<close>

datatype store_op = Create string string | Import string string | Delete string

fun apply_store_op :: "(string \<Rightarrow> js_error + string) \<Rightarrow> store_op \<Rightarrow> wallet_file \<Rightarrow> wallet_file" where
  "apply_store_op d (Create generated nm) file = snd (createWallet d generated nm file)"
| "apply_store_op d (Import nm key) file = snd (importWallet d nm key file)"
| "apply_store_op d (Delete addr) file = snd (deleteWallet addr file)"

fun apply_store_ops :: "(string \<Rightarrow> js_error + string) \<Rightarrow> store_op list \<Rightarrow> wallet_file
    \<Rightarrow> wallet_file" where
  "apply_store_ops d [] file = file"
| "apply_store_ops d (x # xs) file = apply_store_ops d xs (apply_store_op d x file)"

text \<open>The keys handed over by \<^verbatim>\<open>generatePrivateKey()\<close> in a history.\<close>

fun generated_keys :: "store_op list \<Rightarrow> string list" where
  "generated_keys [] = []"
| "generated_keys (Create generated nm # xs) = generated # generated_keys xs"
| "generated_keys (x # xs) = generated_keys xs"

definition scenario_key :: string where
  "scenario_key = ''0x00000000000000000000000000000000000000000000000000000000000000aB''"

section \<open>Chain registry and the custom chain\<close>

text \<open>chains.ts\<close>

definition CHAINS :: "chain list" where
  "CHAINS =
     [\<lparr>chain_id = Num 1, chain_name = ''Ethereum'', hexId = ''0x1'',
        rpc = ''https://eth.llamarpc.com''\<rparr>,
      \<lparr>chain_id = Num 42161, chain_name = ''Arbitrum'', hexId = ''0xa4b1'',
        rpc = ''https://arb1.arbitrum.io/rpc''\<rparr>,
      \<lparr>chain_id = Num 8453, chain_name = ''Base'', hexId = ''0x2105'',
        rpc = ''https://mainnet.base.org''\<rparr>,
      \<lparr>chain_id = Num 137, chain_name = ''Polygon'', hexId = ''0x89'',
        rpc = ''https://polygon-rpc.com''\<rparr>,
      \<lparr>chain_id = Num 10, chain_name = ''Optimism'', hexId = ''0xa'',
        rpc = ''https://mainnet.optimism.io''\<rparr>,
      \<lparr>chain_id = Num 56, chain_name = ''BNB Chain'', hexId = ''0x38'',
        rpc = ''https://bsc-dataseed.binance.org''\<rparr>,
      \<lparr>chain_id = Num 43114, chain_name = ''Avalanche'', hexId = ''0xa86a'',
        rpc = ''https://api.avax.network/ext/bc/C/rpc''\<rparr>]"

definition findChain :: "js_number \<Rightarrow> chain option" where
  "findChain n = (if n = NaN then None else find (\<lambda>c. chain_id c = n) CHAINS)"

text \<open>
  \<^verbatim>\<open>parseInt(value, 10)\<close>: leading white space is skipped, one sign is read, then the
  longest run of decimal digits; without a digit the result is \<^verbatim>\<open>NaN\<close>. The result
  is the double nearest to the integer that the digits denote, a tie going to the even
  significand. Up to \<^verbatim>\<open>2^53\<close> that is the integer itself; from
  \<^verbatim>\<open>2^1024 - 2^970\<close>, half a step beyond the largest double, it is
  \<^verbatim>\<open>Infinity\<close>. (The language allows an engine to read the digits after the
  twentieth significant one as zeros; that changes neither a result up to
  \<^verbatim>\<open>2^53\<close> nor which digit strings give \<^verbatim>\<open>Infinity\<close> from 310 digits on.)
\<close>

definition is_white_space :: "char \<Rightarrow> bool" where
  "is_white_space c = ((of_char c :: nat) \<in> {9, 10, 11, 12, 13, 32, 160})"

definition is_decimal_digit :: "char \<Rightarrow> bool" where
  "is_decimal_digit c = (48 \<le> (of_char c :: nat) \<and> (of_char c :: nat) \<le> 57)"

definition decimal_value :: "string \<Rightarrow> nat" where
  "decimal_value ds = foldl (\<lambda>v c. 10 * v + ((of_char c :: nat) - 48)) 0 ds"

text \<open>The number of binary digits of a natural number.\<close>

function bit_length :: "nat \<Rightarrow> nat" where
  "bit_length n = (if n = 0 then 0 else Suc (bit_length (n div 2)))"
  by pat_completeness auto
termination
  by (relation "measure id") auto

declare bit_length.simps [simp del]

text \<open>The double nearest to a natural number, \<open>None\<close> when that is beyond the largest
  double: the number is cut to its 53 leading binary digits \<open>q\<close> and the rest \<open>r\<close>
  decides the rounding.\<close>

definition nearest_double :: "nat \<Rightarrow> nat option" where
  "nearest_double n =
     (if n < 2 ^ 53 then Some n
      else if 2 ^ 1024 - 2 ^ 970 \<le> n then None
      else (let e = bit_length n - 53;
                q = n div 2 ^ e;
                r = n mod 2 ^ e
            in Some ((if 2 ^ (e - 1) < r \<or> (r = 2 ^ (e - 1) \<and> odd q) then q + 1 else q)
                     * 2 ^ e)))"

definition parseInt10 :: "string \<Rightarrow> js_number" where
  "parseInt10 s =
     (let t = dropWhile is_white_space s;
          negative = (case t of c # r \<Rightarrow> c = CHR ''-'' | [] \<Rightarrow> False);
          u = (case t of c # r \<Rightarrow> if c = CHR ''-'' \<or> c = CHR ''+'' then r else t | [] \<Rightarrow> t);
          ds = takeWhile is_decimal_digit u
      in if ds = [] then NaN
         else (case nearest_double (decimal_value ds) of
                 None \<Rightarrow> if negative then NegInfinity else PosInfinity
               | Some m \<Rightarrow> Num (if negative then - int m else int m)))"

text \<open>\<^verbatim>\<open>isNaN(id)\<close> and \<^verbatim>\<open>id <= 0\<close>; a comparison with \<^verbatim>\<open>NaN\<close> is false.\<close>

definition isNaN :: "js_number \<Rightarrow> bool" where
  "isNaN n = (n = NaN)"

fun number_le_zero :: "js_number \<Rightarrow> bool" where
  "number_le_zero NaN = False"
| "number_le_zero PosInfinity = False"
| "number_le_zero NegInfinity = True"
| "number_le_zero (Num i) = (i \<le> 0)"

text \<open>The component \<^verbatim>\<open>ChainPicker\<close> (chain-picker.tsx) and its state hooks.\<close>

datatype sub_screen = ListScreen | CustomIdScreen | CustomRpcScreen

record picker_state =
  subScreen :: sub_screen
  customId :: string
  customRpc :: string
  error :: string

definition initial_picker :: picker_state where
  "initial_picker = \<lparr>subScreen = ListScreen, customId = [], customRpc = [], error = []\<rparr>"

text \<open>Each handler returns the new state and the chain handed to \<^verbatim>\<open>onComplete\<close>, if
  it is called. The printer \<open>pr\<close> is the engine's text of an integer beyond
  \<^verbatim>\<open>2^53\<close>.\<close>

definition handleSelect :: "number_printer \<Rightarrow> string \<Rightarrow> picker_state
    \<Rightarrow> picker_state \<times> chain option" where
  "handleSelect pr item_value st =
     (if item_value = ''__custom__'' then (st\<lparr>subScreen := CustomIdScreen\<rparr>, None)
      else (st, find (\<lambda>c. number_text pr (chain_id c) = item_value) CHAINS))"

definition handleCustomIdSubmit :: "string \<Rightarrow> picker_state \<Rightarrow> picker_state \<times> chain option" where
  "handleCustomIdSubmit v st =
     (let id = parseInt10 v in
      if isNaN id \<or> number_le_zero id then
        (st\<lparr>error := ''Chain ID must be a positive number''\<rparr>, None)
      else (st\<lparr>error := [], subScreen := CustomRpcScreen\<rparr>, None))"

definition handleCustomRpcSubmit :: "number_printer \<Rightarrow> string \<Rightarrow> picker_state
    \<Rightarrow> picker_state \<times> chain option" where
  "handleCustomRpcSubmit pr v st =
     (if \<not> starts_with v ''http://'' \<and> \<not> starts_with v ''https://'' then
        (st\<lparr>error := ''RPC URL must start with http:// or https://''\<rparr>, None)
      else
        (let id = parseInt10 (customId st) in
         (st, Some \<lparr>chain_id = id,
                    chain_name = ''Custom ('' @ number_text pr id @ '')'',
                    hexId = ''0x'' @ number_to_radix pr 16 id,
                    rpc = v\<rparr>)))"

text \<open>What the user can do depends on the screen that is rendered: the list, or one of
  the two text inputs. A text input reports every change of its text and, on Enter,
  submits the text it shows, which is the state variable bound to it.\<close>

datatype picker_event =
    Select string
  | ChangeCustomId string
  | SubmitCustomId
  | ChangeCustomRpc string
  | SubmitCustomRpc

fun step_picker :: "number_printer \<Rightarrow> picker_event \<Rightarrow> picker_state
    \<Rightarrow> picker_state \<times> chain option" where
  "step_picker pr (Select v) st =
     (if subScreen st = ListScreen then handleSelect pr v st else (st, None))"
| "step_picker pr (ChangeCustomId v) st =
     (if subScreen st = CustomIdScreen then (st\<lparr>customId := v\<rparr>, None) else (st, None))"
| "step_picker pr SubmitCustomId st =
     (if subScreen st = CustomIdScreen then handleCustomIdSubmit (customId st) st
      else (st, None))"
| "step_picker pr (ChangeCustomRpc v) st =
     (if subScreen st = CustomRpcScreen then (st\<lparr>customRpc := v\<rparr>, None) else (st, None))"
| "step_picker pr SubmitCustomRpc st =
     (if subScreen st = CustomRpcScreen then handleCustomRpcSubmit pr (customRpc st) st
      else (st, None))"

fun run_picker :: "number_printer \<Rightarrow> picker_event list \<Rightarrow> picker_state \<Rightarrow> picker_state" where
  "run_picker pr [] st = st"
| "run_picker pr (e # es) st = run_picker pr es (fst (step_picker pr e st))"

subsection \<open>Vocabulary for the statements about the custom chain\<close>

text \<open>The lowercase hexadecimal numeral of a natural number: digits \<^verbatim>\<open>0-9a-f\<close>, no
  leading zero except for zero itself, and the value it denotes.\<close>

definition hex_digit_value :: "char \<Rightarrow> nat" where
  "hex_digit_value c = (case unhex c of Some d \<Rightarrow> d | None \<Rightarrow> 0)"

definition hex_value :: "string \<Rightarrow> nat" where
  "hex_value s = foldl (\<lambda>v c. 16 * v + hex_digit_value c) 0 s"

definition lowercase_hex_of :: "nat \<Rightarrow> string \<Rightarrow> bool" where
  "lowercase_hex_of n s =
     (list_all lower_hex_digit s
      \<and> (case s of [] \<Rightarrow> False | c # cs \<Rightarrow> c \<noteq> CHR ''0'' \<or> cs = [])
      \<and> hex_value s = n)"

text \<open>What holds whenever the second text input is on screen.\<close>

definition picker_invariant :: "picker_state \<Rightarrow> bool" where
  "picker_invariant st =
     (subScreen st = CustomRpcScreen \<longrightarrow>
        \<not> isNaN (parseInt10 (customId st)) \<and> \<not> number_le_zero (parseInt10 (customId st)))"

text \<open>A printer for the scenarios, in none of which an integer beyond \<^verbatim>\<open>2^53\<close> is
  printed, and the custom id of 401 digits: a one followed by 400 zeros.\<close>

definition scenario_printer :: number_printer where
  "scenario_printer = (\<lambda>b n. [])"

definition long_id :: string where
  "long_id = CHR ''1'' # replicate 400 CHR ''0''"

definition infinity_chain :: chain where
  "infinity_chain =
     \<lparr>chain_id = PosInfinity, chain_name = ''Custom (Infinity)'', hexId = ''0xInfinity'',
      rpc = ''https://rpc.example''\<rparr>"

section \<open>Capture bridge: the exposed function \_\_submitCapture\<close>


















subsection \<open>Vocabulary for the statements about \_\_submitCapture\<close>









section \<open>Capture bridge: the in-page fetch interposer\<close>

text \<open>
  \<^verbatim>\<open>injectCaptureToolbar\<close> (capture.ts) evaluates one function in the page. The
  function first wraps \<^verbatim>\<open>window.fetch\<close> unless the page global
  \<^verbatim>\<open>__fetchPatched\<close> is set, then calls
  \<^verbatim>\<open>window.figma?.captureForDesign({...}).catch(() => {})\<close>.

  The value of \<^verbatim>\<open>window.fetch\<close> is modelled by its structure: the browser's own
  function, or the closure the script builds around the function it found
  (\<^verbatim>\<open>originalFetch\<close>).
\<close>

datatype fetch_impl = NativeFetch | Interposer fetch_impl

text \<open>The global \<^verbatim>\<open>window.figma\<close>: absent (the optional chain stops), an object with
  a callable \<^verbatim>\<open>captureForDesign\<close>, or an object without one (the call is a TypeError).\<close>

datatype figma_global = FigmaAbsent | FigmaApi | FigmaNoCapture

record capture_call =
  cc_captureId :: string
  cc_endpoint :: string
  cc_selector :: string

record page =
  fetchPatched :: bool
  fetch :: fetch_impl
  figma :: figma_global
  captureCalls :: "capture_call list"

text \<open>What a call of \<^verbatim>\<open>window.fetch(url, opts)\<close> ends up doing. The url is
  \<open>Some s\<close> when it is a string \<open>s\<close> and \<open>None\<close> for any other value
  (\<^verbatim>\<open>typeof url === 'string'\<close>).\<close>

datatype fetch_route = ToSubmitCapture string | ToNative

fun str_includes :: "string \<Rightarrow> string \<Rightarrow> bool" where
  "str_includes [] needle = (needle = [])"
| "str_includes (c # cs) needle =
     (take (length needle) (c # cs) = needle \<or> str_includes cs needle)"

fun run_fetch :: "fetch_impl \<Rightarrow> string option \<Rightarrow> fetch_route" where
  "run_fetch NativeFetch target = ToNative"
| "run_fetch (Interposer originalFetch) target =
     (case target of
        Some s \<Rightarrow> if str_includes s ''mcp.figma.com'' then ToSubmitCapture s
                  else run_fetch originalFetch target
      | None \<Rightarrow> run_fetch originalFetch target)"

fun wrap_depth :: "fetch_impl \<Rightarrow> nat" where
  "wrap_depth NativeFetch = 0"
| "wrap_depth (Interposer f) = Suc (wrap_depth f)"

definition patch_fetch :: "page \<Rightarrow> page" where
  "patch_fetch p =
     (if \<not> fetchPatched p
      then p\<lparr>fetch := Interposer (fetch p), fetchPatched := True\<rparr>
      else p)"

definition capture_endpoint :: "string \<Rightarrow> string" where
  "capture_endpoint cid = ''https://mcp.figma.com/mcp/capture/'' @ cid @ ''/submit''"

text \<open>The evaluated function as a whole: \<open>Inl\<close> is the exception that leaves
  \<^verbatim>\<open>page.evaluate\<close>; the page is returned in both cases because the wrap has
  happened before the call that can throw.\<close>

definition toolbar_script :: "string \<Rightarrow> page \<Rightarrow> (string + unit) \<times> page" where
  "toolbar_script cid p =
     (let p1 = patch_fetch p in
      case figma p1 of
        FigmaAbsent \<Rightarrow> (Inr (), p1)
      | FigmaApi \<Rightarrow>
          (Inr (), p1\<lparr>captureCalls := captureCalls p1 @
             [\<lparr>cc_captureId = cid, cc_endpoint = capture_endpoint cid,
               cc_selector = ''body''\<rparr>]\<rparr>)
      | FigmaNoCapture \<Rightarrow> (Inl ''TypeError'', p1))"

section \<open>Properties of the message display\<close>

lemma utf8_decode_ascii:
  "list_all (\<lambda>b. b < 128) bs \<Longrightarrow> utf8_decode 0 cp lo hi bs = bs"
  by (induction bs arbitrary: cp lo hi) (auto simp: utf8_lead_def)

lemma mod_range: "m * k \<le> b \<Longrightarrow> b < m * Suc k \<Longrightarrow> b mod m = b - m * (k::nat)"
proof -
  assume a: "m * k \<le> b" "b < m * Suc k"
  then have "b div m = k" by (rule div_nat_eqI)
  then show ?thesis by (simp add: modulo_nat_def mult.commute)
qed

lemma cont_mod: "128 \<le> b \<Longrightarrow> b \<le> 191 \<Longrightarrow> b mod 64 = b - (128::nat)"
  using mod_range [of 64 2 b] by simp

lemma lead2_mod: "0xC2 \<le> b \<Longrightarrow> b \<le> 0xDF \<Longrightarrow> b mod 32 = b - (192::nat)"
  using mod_range [of 32 6 b] by simp

lemma lead3_mod: "0xE0 \<le> b \<Longrightarrow> b \<le> 0xEF \<Longrightarrow> b mod 16 = b - (224::nat)"
  using mod_range [of 16 14 b] by simp

lemma lead4_mod: "0xF0 \<le> b \<Longrightarrow> b \<le> 0xF4 \<Longrightarrow> b mod 8 = b - (240::nat)"
  using mod_range [of 8 30 b] by simp

lemma utf8_lead_inv:
  assumes "utf8_lead b = Begin n c lo hi"
  shows "n \<noteq> 0 \<and> utf8_inv n c lo hi"
proof -
  consider (two) "0xC2 \<le> b" "b \<le> 0xDF" | (three) "0xE0 \<le> b" "b \<le> 0xEF"
    | (four) "0xF0 \<le> b" "b \<le> 0xF4"
    using assms by (simp add: utf8_lead_def split: if_splits)
  then show ?thesis
  proof cases
    case two
    then have "utf8_lead b = Begin 1 (b - 192) 0x80 0xBF"
      by (simp add: utf8_lead_def lead2_mod)
    with assms two show ?thesis by (auto simp: utf8_inv_def)
  next
    case three
    then have "utf8_lead b = Begin 2 (b - 224) (if b = 0xE0 then 0xA0 else 0x80)
        (if b = 0xED then 0x9F else 0xBF)"
      by (simp add: utf8_lead_def lead3_mod)
    with assms three show ?thesis by (auto simp: utf8_inv_def split: if_splits)
  next
    case four
    then have "utf8_lead b = Begin 3 (b - 240) (if b = 0xF0 then 0x90 else 0x80)
        (if b = 0xF4 then 0x8F else 0xBF)"
      by (simp add: utf8_lead_def lead4_mod)
    with assms four show ?thesis by (auto simp: utf8_inv_def split: if_splits)
  qed
qed

lemma utf8_decode_last:
  "lower \<le> b \<Longrightarrow> b \<le> upper \<Longrightarrow>
   utf8_decode (Suc 0) cp lower upper (b # bs) = (cp * 64 + b mod 64) # utf8_decode 0 0 0x80 0xBF bs"
  by simp

lemma utf8_decode_more:
  "lower \<le> b \<Longrightarrow> b \<le> upper \<Longrightarrow>
   utf8_decode (Suc (Suc n)) cp lower upper (b # bs) = utf8_decode (Suc n) (cp * 64 + b mod 64) 0x80 0xBF bs"
  by simp

lemma utf8_decode_restart:
  "\<not> (needed \<noteq> 0 \<and> lower \<le> b \<and> b \<le> upper) \<Longrightarrow>
   utf8_decode needed cp lower upper (b # bs) =
     (if needed \<noteq> 0 then [0xFFFD] else []) @
        (case utf8_lead b of
           Emit c \<Rightarrow> c # utf8_decode 0 0 0x80 0xBF bs
         | Begin n c lo hi \<Rightarrow> utf8_decode n c lo hi bs
         | Invalid \<Rightarrow> 0xFFFD # utf8_decode 0 0 0x80 0xBF bs)"
  by (subst utf8_decode.simps) (simp only: if_False)

lemma utf8_lead_Emit: "utf8_lead b = Emit c \<Longrightarrow> c = b \<and> b < 128"
  by (simp add: utf8_lead_def split: if_splits)

lemma utf8_inv_step:
  assumes "utf8_inv (Suc (Suc n)) cp lower upper" "lower \<le> b" "b \<le> upper"
  shows "utf8_inv (Suc n) (cp * 64 + b mod 64) 128 191"
proof -
  from assms have bnd: "128 \<le> lower" "upper \<le> 191" and cpb: "1 \<le> cp \<or> 130 \<le> lower"
    by (auto simp: utf8_inv_def)
  from bnd assms(2,3) have "128 \<le> b" "b \<le> 191" by simp_all
  then have bm: "b mod 64 = b - 128" by (rule cont_mod)
  from cpb have "2 \<le> cp * 64 + (b - 128)"
  proof
    assume "1 \<le> cp" then show ?thesis by simp
  next
    assume "130 \<le> lower" with assms(2) show ?thesis by simp
  qed
  with bm show ?thesis by (simp add: utf8_inv_def)
qed

lemma utf8_inv_last:
  assumes "utf8_inv (Suc 0) cp lower upper"
  shows "128 \<le> cp * 64 + b mod 64"
proof -
  from assms have "2 \<le> cp" by (simp add: utf8_inv_def)
  then show ?thesis by simp
qed

lemma utf8_decode_high:
  "utf8_inv needed cp lower upper \<Longrightarrow> needed \<noteq> 0 \<or> \<not> list_all (\<lambda>b. b < 128) bs
     \<Longrightarrow> \<exists>u \<in> set (utf8_decode needed cp lower upper bs). 128 \<le> u"
proof (induction bs arbitrary: needed cp lower upper)
  case Nil
  then show ?case by simp
next
  case (Cons b bs)
  show ?case
  proof (cases "needed \<noteq> 0 \<and> lower \<le> b \<and> b \<le> upper")
    case True
    then have rng: "lower \<le> b" "b \<le> upper" and nz: "needed \<noteq> 0" by simp_all
    show ?thesis
    proof (cases needed)
      case 0
      with nz show ?thesis by simp
    next
      case (Suc m)
      show ?thesis
      proof (cases m)
        case 0
        with Suc Cons.prems(1) have "128 \<le> cp * 64 + b mod 64"
          using utf8_inv_last by simp
        with Suc 0 rng show ?thesis
          by (simp only: utf8_decode_last list.set) blast
      next
        case (Suc k)
        with \<open>needed = Suc m\<close> Cons.prems(1) rng
        have "utf8_inv (Suc k) (cp * 64 + b mod 64) 128 191"
          using utf8_inv_step by simp
        then have "\<exists>u \<in> set (utf8_decode (Suc k) (cp * 64 + b mod 64) 128 191 bs). 128 \<le> u"
          using Cons.IH by blast
        with Suc \<open>needed = Suc m\<close> rng show ?thesis
          by (simp only: utf8_decode_more)
      qed
    qed
  next
    case False
    note restart = utf8_decode_restart [OF False, of cp bs]
    show ?thesis
    proof (cases "utf8_lead b")
      case (Emit c)
      then have cb: "c = b" "b < 128" using utf8_lead_Emit by blast+
      show ?thesis
      proof (cases "needed = 0")
        case True
        with Cons.prems(2) cb have "\<not> list_all (\<lambda>b. b < 128) bs" by simp
        then have "\<exists>u \<in> set (utf8_decode 0 0 128 191 bs). 128 \<le> u"
          using Cons.IH [of 0 0 128 191] by (simp add: utf8_inv_def)
        then show ?thesis unfolding restart Emit by auto
      next
        case nz: False
        then show ?thesis unfolding restart by simp
      qed
    next
      case (Begin n c lo hi)
      then have "n \<noteq> 0" "utf8_inv n c lo hi" using utf8_lead_inv by blast+
      then have "\<exists>u \<in> set (utf8_decode n c lo hi bs). 128 \<le> u"
        using Cons.IH by blast
      then show ?thesis unfolding restart Begin by auto
    next
      case Invalid
      show ?thesis unfolding restart Invalid by simp
    qed
  qed
qed

lemma utf16_units_high: "128 \<le> cp \<Longrightarrow> \<exists>u \<in> set (utf16_units cp). 128 \<le> u"
  by (simp add: utf16_units_def)

lemma buffer_to_string_ascii:
  "list_all (\<lambda>b. b < 128) bs \<Longrightarrow> buffer_to_string bs = bs"
proof -
  assume a: "list_all (\<lambda>b. b < 128) bs"
  have "concat (map utf16_units bs) = bs" using a
    by (induction bs) (auto simp: utf16_units_def)
  with a show ?thesis by (simp add: buffer_to_string_def utf8_decode_ascii)
qed

lemma buffer_to_string_high:
  "\<not> list_all (\<lambda>b. b < 128) bs \<Longrightarrow> \<exists>u \<in> set (buffer_to_string bs). 128 \<le> u"
proof -
  assume "\<not> list_all (\<lambda>b. b < 128) bs"
  then obtain c where c: "c \<in> set (utf8_decode 0 0 0x80 0xBF bs)" "128 \<le> c"
    using utf8_decode_high [of 0 0 "0x80" "0xBF" bs] by (auto simp: utf8_inv_def)
  then obtain u where "u \<in> set (utf16_units c)" "128 \<le> u"
    using utf16_units_high by blast
  with c show ?thesis by (auto simp: buffer_to_string_def)
qed

lemma printable_below_128: "printable_unit u \<Longrightarrow> u < 128"
  by (auto simp: printable_unit_def)

lemma test_printable_buffer:
  "test_printable (buffer_to_string bs) \<longleftrightarrow> bs \<noteq> [] \<and> list_all printable_unit bs"
proof (cases "list_all (\<lambda>b. b < 128) bs")
  case True
  then show ?thesis by (simp add: buffer_to_string_ascii test_printable_def)
next
  case False
  then obtain u where "u \<in> set (buffer_to_string bs)" "128 \<le> u"
    using buffer_to_string_high by blast
  then have "\<not> test_printable (buffer_to_string bs)"
    using printable_below_128 by (fastforce simp: test_printable_def list_all_iff)
  moreover have "\<not> list_all printable_unit bs"
    using False printable_below_128 by (auto simp: list_all_iff)
  ultimately show ?thesis by simp
qed

lemma printable_text:
  "list_all printable_unit bs \<Longrightarrow> buffer_to_string bs = bs"
  using printable_below_128 by (intro buffer_to_string_ascii) (auto simp: list_all_iff)

lemma tryDecodeUtf8_spec:
  "tryDecodeUtf8 (JStr hex) =
     (if starts_with hex ''0x'' \<and> hex_decode (drop 2 hex) \<noteq> []
         \<and> list_all printable_unit (hex_decode (drop 2 hex))
      then JStr (map char_of (buffer_to_string (hex_decode (drop 2 hex))))
      else JStr hex)"
  by (simp add: Let_def test_printable_buffer)

declare tryDecodeUtf8.simps [simp del]

section \<open>Properties of numbers\<close>

lemma accepted_number:
  "\<not> isNaN n \<Longrightarrow> \<not> number_le_zero n \<Longrightarrow> n = PosInfinity \<or> (\<exists>i. 0 < i \<and> n = Num i)"
  by (cases n) (simp_all add: isNaN_def)

lemma number_to_radix_exact:
  "0 < i \<Longrightarrow> i \<le> 2 ^ 53 \<Longrightarrow> number_to_radix pr b (Num i) = to_radix b (nat i)"
  by (simp add: number_to_radix_def)

lemma number_text_exact:
  "\<bar>i\<bar> \<le> 2 ^ 53 \<Longrightarrow> number_text pr (Num i) = int_to_string i"
  by (simp add: number_text_def number_to_radix_def int_to_string_def)

lemma number_text_infinity:
  "number_text pr PosInfinity = ''Infinity''" "number_to_radix pr b PosInfinity = ''Infinity''"
  by (simp_all add: number_text_def number_to_radix_def)

text \<open>Reading digit strings.\<close>

lemma beyond_largest_double: "(2::nat) ^ 1024 - 2 ^ 970 \<le> 10 ^ 400"
  by simp

lemma decimal_value_snoc:
  "decimal_value (ds @ [c]) = 10 * decimal_value ds + ((of_char c :: nat) - 48)"
  by (simp add: decimal_value_def)

lemma decimal_value_zeros:
  "decimal_value (ds @ replicate k CHR ''0'') = decimal_value ds * 10 ^ k"
proof (induction k)
  case 0
  show ?case by simp
next
  case (Suc k)
  have "ds @ replicate (Suc k) CHR ''0'' = (ds @ replicate k CHR ''0'') @ [CHR ''0'']"
    by (simp add: replicate_append_same)
  then show ?case using Suc by (simp only: decimal_value_snoc) simp
qed

lemma decimal_value_long_id: "decimal_value long_id = 10 ^ 400"
proof -
  have e: "long_id = [CHR ''1''] @ replicate 400 CHR ''0''" by (simp add: long_id_def)
  show ?thesis unfolding e decimal_value_zeros by (simp add: decimal_value_def)
qed

lemma nearest_double_overflow: "nearest_double (10 ^ 400) = None"
  using beyond_largest_double by (simp add: nearest_double_def)

lemma parseInt10_digits:
  assumes "ds \<noteq> []" "list_all is_decimal_digit ds"
  shows "parseInt10 ds =
    (case nearest_double (decimal_value ds) of None \<Rightarrow> PosInfinity | Some m \<Rightarrow> Num (int m))"
proof -
  from assms obtain c r where ds: "ds = c # r" and c: "is_decimal_digit c"
    by (cases ds) auto
  from c have w: "\<not> is_white_space c" and m: "c \<noteq> CHR ''-''" "c \<noteq> CHR ''+''"
    by (auto simp: is_decimal_digit_def is_white_space_def)
  have t: "takeWhile is_decimal_digit ds = ds"
    using assms(2) by (simp add: list_all_iff)
  show ?thesis
    using w m t assms(1) unfolding ds
    by (simp add: parseInt10_def Let_def split: option.splits)
qed

lemma long_id_digits: "long_id \<noteq> []" "list_all is_decimal_digit long_id"
  by (simp_all add: long_id_def is_decimal_digit_def list_all_iff)

lemma parseInt10_long_id: "parseInt10 long_id = PosInfinity"
  by (simp only: parseInt10_digits [OF long_id_digits] decimal_value_long_id
      nearest_double_overflow option.case)

lemma bit_length_2_53_1: "bit_length 9007199254740993 = 54"
  by (simp add: bit_length.simps)

lemma nearest_double_tie: "nearest_double 9007199254740993 = Some 9007199254740992"
  by (simp add: nearest_double_def bit_length_2_53_1 Let_def)

lemma nearest_double_tie2: "nearest_double 9007199254740995 = Some 9007199254740996"
  by (simp add: nearest_double_def bit_length.simps Let_def)

lemma parseInt10_137: "parseInt10 ''137'' = Num 137"
  by (simp add: parseInt10_def is_white_space_def is_decimal_digit_def decimal_value_def Let_def
      nearest_double_def)

lemma parseInt10_rejects:
  "parseInt10 ''abc'' = NaN" "parseInt10 '' -5'' = Num (- 5)" "parseInt10 ''12abc'' = Num 12"
  by (simp_all add: parseInt10_def is_white_space_def is_decimal_digit_def decimal_value_def
      Let_def nearest_double_def)

lemma parseInt10_rounds: "parseInt10 ''9007199254740993'' = Num 9007199254740992"
  by (simp add: parseInt10_def is_white_space_def is_decimal_digit_def decimal_value_def Let_def
      nearest_double_tie)


lemma picker_long_id_state:
  "run_picker pr [Select ''__custom__'', ChangeCustomId long_id, SubmitCustomId,
                  ChangeCustomRpc ''https://rpc.example''] initial_picker
   = \<lparr>subScreen = CustomRpcScreen, customId = long_id,
      customRpc = ''https://rpc.example'', error = []\<rparr>"
  by (simp add: initial_picker_def handleSelect_def handleCustomIdSubmit_def
      parseInt10_long_id isNaN_def)

lemma picker_long_id_chain:
  "step_picker pr SubmitCustomRpc
     \<lparr>subScreen = CustomRpcScreen, customId = long_id,
      customRpc = ''https://rpc.example'', error = []\<rparr>
   = (\<lparr>subScreen = CustomRpcScreen, customId = long_id,
       customRpc = ''https://rpc.example'', error = []\<rparr>, Some infinity_chain)"
  by (simp add: handleCustomRpcSubmit_def starts_with_def parseInt10_long_id
      number_text_infinity infinity_chain_def)

lemma infinity_not_hex: "\<not> list_all lower_hex_digit ''Infinity''"
  by (simp add: lower_hex_digit_def Let_def)

section \<open>Properties of the dispatcher\<close>

lemma rpcProxy_page: 
  "rpcProxy rt config a ap c method params =
     (case rpcProxy_switch rt config a ap c method params of
        (out, effs, c') \<Rightarrow> (page_outcome out, effs, c'))"
  unfolding rpcProxy_def
  by (cases "rpcProxy_switch rt config a ap c method params" rule: prod_cases3)
     (simp split: outcome.splits)














lemma get_prop_nullish: "nullish v \<Longrightarrow> get_prop v k = Inl (cannot_read v k)"
  by (cases v) (simp_all add: nullish_def cannot_read_def)

lemma get_prop_read: "\<not> nullish v \<Longrightarrow> get_prop v k = Inr (read_prop v k)"
  by (cases v) (simp_all add: nullish_def read_prop_def)









lemma char_of_eqI: "of_char c = (n::nat) \<Longrightarrow> char_of n = c"
  by auto

lemma digit_char_values:
  "digit_char 0 = CHR ''0''" "digit_char 2 = CHR ''2''"
  "digit_char 3 = CHR ''3''" "digit_char 4 = CHR ''4''" "digit_char 5 = CHR ''5''"
  "digit_char 6 = CHR ''6''" "digit_char 7 = CHR ''7''" "digit_char 8 = CHR ''8''"
  "digit_char 9 = CHR ''9''" "digit_char 10 = CHR ''a''" "digit_char 11 = CHR ''b''"
  "digit_char 12 = CHR ''c''" "digit_char 13 = CHR ''d''" "digit_char 14 = CHR ''e''"
  "digit_char 15 = CHR ''f''"
  by (simp_all add: digit_char_def char_of_eqI)

lemma digit_char_one: "digit_char (Suc 0) = CHR ''1''" "digit_char 1 = CHR ''1''"
proof -
  have "char_of (49::nat) = CHR ''1''" by (rule char_of_eqI) simp
  then show "digit_char (Suc 0) = CHR ''1''" "digit_char 1 = CHR ''1''"
    by (simp_all add: digit_char_def)
qed

lemmas eval_digits = int_to_string_def to_radix.simps digit_char_values digit_char_one



lemma to_radix_nonempty: "to_radix b n \<noteq> []"
  by (subst to_radix.simps) simp

lemma json_text_nonempty: "json_text v \<noteq> []"
  by (cases v) (simp_all add: int_to_string_def to_radix_nonempty json_quote_def)

lemma rethrow_message: "m \<noteq> [] \<Longrightarrow> rethrow (mk_error ''Error'' m) = mk_error ''Error'' m"
  by (simp add: rethrow_def mk_error_def)

lemma forward_switch:
  "method \<notin> local_methods \<union> signing_methods \<Longrightarrow>
   rpcProxy_switch rt config a ap c method params = forward_case rt config c method params"
  by (simp add: rpcProxy_switch_def local_methods_def signing_methods_def)

text \<open>
  C3. A method outside the table makes exactly one POST to \<^verbatim>\<open>chain.rpc\<close> whose body
  is the JSON text of \<^verbatim>\<open>{jsonrpc: "2.0", id: 1, method, params: params || []}\<close>; the
  call returns the \<^verbatim>\<open>result\<close> field of the answer, and when the answer carries a
  truthy \<^verbatim>\<open>error\<close> it fails with an error whose message is the JSON text of that
  error. A failed fetch, a body that is not JSON and the answer \<^verbatim>\<open>null\<close> fail the
  call as well.
\<close>

theorem forwarded_methods:
  assumes "method \<notin> local_methods \<union> signing_methods"
    and "rpcProxy rt config a ap c method params = (out, effs, c')"
  shows "effs = [HttpPost (rpc (chain config))
                  (json_text (JObj [(''jsonrpc'', JStr ''2.0''), (''id'', JNum 1),
                     (''method'', JStr method),
                     (''params'', if truthy params then params else JArr [])]))]
       \<and> c' = c
       \<and> (case post_json rt (rpc (chain config))
                  (json_text (JObj [(''jsonrpc'', JStr ''2.0''), (''id'', JNum 1),
                     (''method'', JStr method),
                     (''params'', if truthy params then params else JArr [])])) of
             Body json \<Rightarrow>
               if nullish json then (\<exists>e. out = Threw e)
               else if truthy (read_prop json ''error'')
                 then out = Threw (mk_error ''Error'' (json_text (read_prop json ''error'')))
                 else out = Returned (read_prop json ''result'')
           | FetchFailed e \<Rightarrow> out = Threw (rethrow e)
           | BodyNotJson e \<Rightarrow> out = Threw (rethrow e))"
proof -
  let ?body = "json_text (JObj [(''jsonrpc'', JStr ''2.0''), (''id'', JNum 1),
                     (''method'', JStr method),
                     (''params'', if truthy params then params else JArr [])])"
  have b: "json_text (rpc_body method params) = ?body"
    by (simp only: rpc_body_def js_or_def)
  have r: "(out, effs, c') =
      (case forward_case rt config c method params of
         (out, effs, c') \<Rightarrow> (page_outcome out, effs, c'))"
    using assms by (simp add: rpcProxy_page forward_switch)
  show ?thesis
  proof (cases "post_json rt (rpc (chain config)) ?body")
    case (FetchFailed e)
    with r b show ?thesis by (simp add: forward_case_def Let_def)
  next
    case (BodyNotJson e)
    with r b show ?thesis by (simp add: forward_case_def Let_def)
  next
    case (Body json)
    show ?thesis
    proof (cases "nullish json")
      case True
      then obtain e where "get_prop json ''error'' = Inl e" using get_prop_nullish by blast
      with r b Body True show ?thesis by (simp add: forward_case_def Let_def)
    next
      case False
      then have "get_prop json ''error'' = Inr (read_prop json ''error'')"
        by (rule get_prop_read)
      with r b Body False show ?thesis
        by (simp add: forward_case_def Let_def rethrow_message json_text_nonempty)
    qed
  qed
qed

lemma boom_text:
  \<open>json_text (JObj [(''code'', JNum (- 32000)), (''message'', JStr ''boom'')])
     = ''{"code":-32000,"message":"boom"}''\<close>
  by (simp add: eval_digits json_quote_def json_escape_def)

lemma boom_included: \<open>str_includes ''{"code":-32000,"message":"boom"}'' ''boom''\<close>
  by simp

theorem forwarded_methods_witness:
  \<open>''eth_blockNumber'' \<notin> local_methods \<union> signing_methods
   \<and> rpcProxy scenario_runtime scenario_config scenario_account no_approver 0
        ''eth_blockNumber'' (JArr [])
      = (Threw (mk_error ''Error'' ''{"code":-32000,"message":"boom"}''),
         [HttpPost ''https://polygon-rpc.com''
            ''{"jsonrpc":"2.0","id":1,"method":"eth_blockNumber","params":[]}''], 0)
   \<and> str_includes ''{"code":-32000,"message":"boom"}'' ''boom''\<close>
proof -
  let ?p = "JArr []"
  have m: "''eth_blockNumber'' \<notin> local_methods \<union> signing_methods"
    by (simp add: local_methods_def signing_methods_def)
  obtain out effs c' where r: "rpcProxy scenario_runtime scenario_config scenario_account
      no_approver 0 ''eth_blockNumber'' ?p = (out, effs, c')"
    by (rule prod_cases3)
  have body: \<open>json_text (JObj [(''jsonrpc'', JStr ''2.0''), (''id'', JNum 1),
       (''method'', JStr ''eth_blockNumber''), (''params'', if truthy ?p then ?p else JArr [])])
     = ''{"jsonrpc":"2.0","id":1,"method":"eth_blockNumber","params":[]}''\<close>
    by (simp add: eval_digits json_quote_def json_escape_def)
  have reply: "post_json scenario_runtime u b
      = Body (JObj [(''error'', JObj [(''code'', JNum (- 32000)), (''message'', JStr ''boom'')])])"
    for u b by (simp add: scenario_runtime_def)
  have "effs = [HttpPost ''https://polygon-rpc.com''
            ''{\"jsonrpc\":\"2.0\",\"id\":1,\"method\":\"eth_blockNumber\",\"params\":[]}'']"
    "c' = 0"
    "out = Threw (mk_error ''Error'' ''{\"code\":-32000,\"message\":\"boom\"}'')"
    using forwarded_methods [OF m r] unfolding body reply
    by (simp_all add: scenario_config_def nullish_def read_prop_def eval_digits json_quote_def
        json_escape_def)
  with m r boom_included show ?thesis by simp
qed

text \<open>
  C2 (amended). The function exposed by \<^verbatim>\<open>setupRpcProxy\<close> answers each of the eight
  local methods with the tabulated constant: the address of the account derived from
  the configured key in a one-element array, \<^verbatim>\<open>chain.hexId\<close>, the text
  \<^verbatim>\<open>String(chain.id)\<close> of the chain id, the \<^verbatim>\<open>eth_accounts\<close> capability, or
  \<^verbatim>\<open>null\<close>. The text of the chain id is its decimal numeral when the id is an
  integer of magnitude up to \<^verbatim>\<open>2^53\<close>. The call has no effect: no post, nothing
  emitted, no signer called, the counter unchanged, whatever the environment, the
  approver and the parameters are.
\<close>

theorem local_methods_tabulated:
  assumes "setupRpcProxy rt config = Inr proxy" and "method \<in> local_methods"
  shows "\<exists>account_address.
           privateKeyToAccount rt (privateKey (wallet config)) = Inr account_address
         \<and> proxy ap c method params =
             (Returned
               (if method = ''eth_accounts'' \<or> method = ''eth_requestAccounts''
                  then JArr [JStr account_address]
                else if method = ''eth_chainId'' then JStr (hexId (chain config))
                else if method = ''net_version''
                  then JStr (number_text (large_number_text rt) (chain_id (chain config)))
                else if method = ''wallet_requestPermissions''
                        \<or> method = ''wallet_getPermissions''
                  then JArr [JObj [(''parentCapability'', JStr ''eth_accounts'')]]
                else JNull),
              [], c)
         \<and> (\<forall>i. method = ''net_version'' \<and> chain_id (chain config) = Num i \<and> \<bar>i\<bar> \<le> 2 ^ 53
               \<longrightarrow> proxy ap c method params = (Returned (JStr (int_to_string i)), [], c))"
proof (cases "privateKeyToAccount rt (privateKey (wallet config))")
  case (Inl e)
  with assms(1) show ?thesis by (simp add: setupRpcProxy_def)
next
  case (Inr account_address)
  with assms(1) have p: "proxy = rpcProxy rt config account_address"
    by (simp add: setupRpcProxy_def)
  have t: "rpcProxy rt config account_address ap c method params =
             (Returned
               (if method = ''eth_accounts'' \<or> method = ''eth_requestAccounts''
                  then JArr [JStr account_address]
                else if method = ''eth_chainId'' then JStr (hexId (chain config))
                else if method = ''net_version''
                  then JStr (number_text (large_number_text rt) (chain_id (chain config)))
                else if method = ''wallet_requestPermissions''
                        \<or> method = ''wallet_getPermissions''
                  then JArr [JObj [(''parentCapability'', JStr ''eth_accounts'')]]
                else JNull),
              [], c)"
    using assms(2) unfolding local_methods_def
    by (auto simp: rpcProxy_page rpcProxy_switch_def)
  have d: "rpcProxy rt config account_address ap c method params
      = (Returned (JStr (int_to_string i)), [], c)"
    if "method = ''net_version''" "chain_id (chain config) = Num i" "\<bar>i\<bar> \<le> 2 ^ 53" for i
    using that by (simp add: rpcProxy_page rpcProxy_switch_def number_text_exact)
  from Inr p t d show ?thesis by blast
qed

text \<open>
  C2, as stated, fails for \<^verbatim>\<open>net_version\<close>: a chain id need not have a decimal
  numeral. The chain that the picker builds from an id of 401 digits has the id
  \<^verbatim>\<open>Infinity\<close>, and the dispatcher answers \<^verbatim>\<open>net_version\<close> with the text
  \<^verbatim>\<open>Infinity\<close>, in which no character is a decimal digit.
\<close>

theorem local_methods_tabulated_counterexample:
  "step_picker scenario_printer SubmitCustomRpc
     \<lparr>subScreen = CustomRpcScreen, customId = long_id,
      customRpc = ''https://rpc.example'', error = []\<rparr>
   = (\<lparr>subScreen = CustomRpcScreen, customId = long_id,
       customRpc = ''https://rpc.example'', error = []\<rparr>, Some infinity_chain)
   \<and> setupRpcProxy scenario_runtime (scenario_config\<lparr>chain := infinity_chain\<rparr>)
     = Inr (rpcProxy scenario_runtime (scenario_config\<lparr>chain := infinity_chain\<rparr>)
              scenario_account)
   \<and> rpcProxy scenario_runtime (scenario_config\<lparr>chain := infinity_chain\<rparr>) scenario_account
        no_approver 0 ''net_version'' (JArr []) = (Returned (JStr ''Infinity''), [], 0)
   \<and> filter is_decimal_digit ''Infinity'' = []"
  using picker_long_id_chain [of scenario_printer]
  by (simp add: setupRpcProxy_def scenario_runtime_def rpcProxy_page rpcProxy_switch_def
      infinity_chain_def number_text_def number_to_radix_def is_decimal_digit_def)

theorem local_methods_tabulated_witness:
  "setupRpcProxy scenario_runtime scenario_config
     = Inr (rpcProxy scenario_runtime scenario_config scenario_account)
   \<and> ''net_version'' \<in> local_methods
   \<and> rpcProxy scenario_runtime scenario_config scenario_account no_approver 0
        ''eth_requestAccounts'' (JArr []) = (Returned (JArr [JStr scenario_account]), [], 0)
   \<and> rpcProxy scenario_runtime scenario_config scenario_account no_approver 0
        ''eth_chainId'' (JArr []) = (Returned (JStr ''0x89''), [], 0)
   \<and> rpcProxy scenario_runtime scenario_config scenario_account no_approver 0
        ''net_version'' (JArr []) = (Returned (JStr ''137''), [], 0)"
proof -
  have s: "setupRpcProxy scenario_runtime scenario_config
     = Inr (rpcProxy scenario_runtime scenario_config scenario_account)"
    by (simp add: setupRpcProxy_def scenario_runtime_def)
  have k: "privateKeyToAccount scenario_runtime k = Inr scenario_account" for k
    by (simp add: scenario_runtime_def)
  have m: "''eth_requestAccounts'' \<in> local_methods" "''eth_chainId'' \<in> local_methods"
    "''net_version'' \<in> local_methods"
    by (simp_all add: local_methods_def)
  have id: "int_to_string 137 = ''137''" by (simp add: eval_digits)
  have c: "chain_id (chain scenario_config) = Num 137"
    "hexId (chain scenario_config) = ''0x89''"
    by (simp_all add: scenario_config_def)
  have a: "rpcProxy scenario_runtime scenario_config scenario_account no_approver 0
        ''eth_requestAccounts'' (JArr []) = (Returned (JArr [JStr scenario_account]), [], 0)"
    using local_methods_tabulated [OF s m(1), of no_approver 0 "JArr []"]
    unfolding k by simp
  have b: "rpcProxy scenario_runtime scenario_config scenario_account no_approver 0
        ''eth_chainId'' (JArr []) = (Returned (JStr ''0x89''), [], 0)"
    using local_methods_tabulated [OF s m(2), of no_approver 0 "JArr []"]
    unfolding k c by simp
  from local_methods_tabulated [OF s m(3), of no_approver 0 "JArr []"]
  have "\<forall>i. ''net_version'' = ''net_version'' \<and> chain_id (chain scenario_config) = Num i
        \<and> \<bar>i\<bar> \<le> 2 ^ 53
      \<longrightarrow> rpcProxy scenario_runtime scenario_config scenario_account no_approver 0
            ''net_version'' (JArr []) = (Returned (JStr (int_to_string i)), [], 0)"
    by blast
  then have "rpcProxy scenario_runtime scenario_config scenario_account no_approver 0
        ''net_version'' (JArr []) = (Returned (JStr (int_to_string 137)), [], 0)"
    unfolding c by simp
  with s m(3) a b show ?thesis unfolding id by simp
qed

text \<open>
  C6 (amended). For a \<^verbatim>\<open>personal_sign\<close> dispatch with a listener attached and a
  string as first parameter, one request is emitted and its display is
  \<^verbatim>\<open>{message}\<close>, where the message is the UTF-8 decoding of the payload when the
  string starts with \<^verbatim>\<open>0x\<close>, at least one byte decodes from the hexadecimal digits
  after it, and every byte is printable ASCII, tab, CR or LF; otherwise it is the
  parameter unchanged.
\<close>

theorem personal_sign_display:
  assumes "listeners ap \<noteq> []"
  shows "\<exists>req out.
           rpcProxy rt config a ap c ''personal_sign'' (JArr (JStr hex # rest))
             = (out, [EmitTxRequest req], c + 1)
         \<and> tx_display req =
             [(''message'',
               if starts_with hex ''0x'' \<and> hex_decode (drop 2 hex) \<noteq> []
                  \<and> list_all printable_unit (hex_decode (drop 2 hex))
               then JStr (map char_of (buffer_to_string (hex_decode (drop 2 hex))))
               else JStr hex)]"
proof -
  define req where "req = \<lparr>tx_id = c + 1, tx_method = ''personal_sign'',
      tx_params = JArr (JStr hex # rest),
      tx_display = [(''message'', tryDecodeUtf8 (JStr hex))],
      tx_sign = signMessage rt (JStr hex)\<rparr>"
  have "rpcProxy rt config a ap c ''personal_sign'' (JArr (JStr hex # rest))
      = (page_outcome (await (approve ap req)), [EmitTxRequest req], c + 1)"
    using assms
    by (simp add: rpcProxy_page rpcProxy_switch_def personal_sign_case_def Let_def element_def
        req_def)
  moreover have "tx_display req = [(''message'', tryDecodeUtf8 (JStr hex))]"
    by (simp add: req_def)
  ultimately show ?thesis
    unfolding tryDecodeUtf8_spec by blast
qed

theorem personal_sign_display_witness:
  "listeners scenario_approver \<noteq> []
   \<and> (\<exists>req out.
        rpcProxy scenario_runtime scenario_config scenario_account scenario_approver 0
          ''personal_sign'' (JArr [JStr ''0x68656c6c6f'']) = (out, [EmitTxRequest req], 1)
      \<and> tx_display req = [(''message'', JStr ''hello'')])"
proof -
  have la: "listeners scenario_approver \<noteq> []" by (simp add: scenario_approver_def)
  have h: "hex_decode (drop 2 ''0x68656c6c6f'') = [104, 101, 108, 108, 111]"
    by (simp add: unhex_def)
  have p: "list_all printable_unit [104, 101, 108, 108, 111]"
    by (simp add: printable_unit_def)
  have t: "buffer_to_string [104, 101, 108, 108, 111] = [104, 101, 108, 108, 111]"
    using p by (rule printable_text)
  have c: "map char_of [104::nat, 101, 108, 108, 111] = ''hello''"
    by (simp add: char_of_eqI)
  have s: "starts_with ''0x68656c6c6f'' ''0x''" by (simp add: starts_with_def)
  show ?thesis
    using la personal_sign_display [OF la, of scenario_runtime scenario_config scenario_account
        0 "''0x68656c6c6f''" "[]"]
    unfolding h t c using s p by simp
qed

text \<open>
  C6, as stated, fails on the empty payload: every byte of \<^verbatim>\<open>0x\<close> is in the range
  (there is none) and its decoding is the empty string, yet the message shown is
  \<^verbatim>\<open>0x\<close>, because the regular expression asks for at least one character.
\<close>

theorem personal_sign_display_counterexample:
  "listeners scenario_approver \<noteq> []
   \<and> rpcProxy scenario_runtime scenario_config scenario_account scenario_approver 0
        ''personal_sign'' (JArr [JStr ''0x''])
      = (Returned (JStr ''0xSIG''),
         [EmitTxRequest \<lparr>tx_id = 1, tx_method = ''personal_sign'',
            tx_params = JArr [JStr ''0x''], tx_display = [(''message'', JStr ''0x'')],
            tx_sign = Inr (JStr ''0xSIGNED'')\<rparr>], 1)
   \<and> list_all printable_unit (hex_decode (drop 2 ''0x''))
   \<and> map char_of (buffer_to_string (hex_decode (drop 2 ''0x''))) = ''''
   \<and> JStr ''0x'' \<noteq> JStr ''''"
proof -
  have d: "tryDecodeUtf8 (JStr ''0x'') = JStr ''0x''"
    unfolding tryDecodeUtf8_spec by (simp add: starts_with_def)
  have a: "approve scenario_approver req = Fulfilled (JStr ''0xSIG'')" for req
    by (simp add: approve_def scenario_approver_def executor_state_def)
  have la: "listeners scenario_approver \<noteq> []" by (simp add: scenario_approver_def)
  show ?thesis
    using la
    by (simp add: rpcProxy_page rpcProxy_switch_def personal_sign_case_def Let_def element_def
        d a scenario_runtime_def buffer_to_string_def)
qed

section \<open>Properties of the fetch interposer\<close>

lemma toolbar_script_fetch:
  "fetch (snd (toolbar_script cid p)) = fetch (patch_fetch p)"
  "fetchPatched (snd (toolbar_script cid p)) = fetchPatched (patch_fetch p)"
  by (simp_all add: toolbar_script_def Let_def split: figma_global.splits)

lemma patch_fetch_flag: "fetchPatched (patch_fetch p)"
  by (simp add: patch_fetch_def)

text \<open>
  C5. Running the toolbar-injection page script twice on the same page leaves exactly one
  layer of wrapping around the original \<^verbatim>\<open>window.fetch\<close>: after the first run on
  a page whose flag is unset the fetch is one interposer around the original, the flag is
  set, and the second run (with any capture id) leaves the fetch as the first run left it.
  On any page at all, the second run does not wrap again.
\<close>

theorem fetch_interposer_idempotent:
  "fetch (snd (toolbar_script cid2 (snd (toolbar_script cid1 p))))
     = fetch (snd (toolbar_script cid1 p))
   \<and> (\<not> fetchPatched p \<longrightarrow>
        fetch (snd (toolbar_script cid2 (snd (toolbar_script cid1 p)))) = Interposer (fetch p)
      \<and> wrap_depth (fetch (snd (toolbar_script cid2 (snd (toolbar_script cid1 p)))))
          = Suc (wrap_depth (fetch p)))"
proof -
  let ?p1 = "snd (toolbar_script cid1 p)"
  have flag: "fetchPatched ?p1"
    by (simp add: toolbar_script_fetch patch_fetch_flag)
  have second: "fetch (snd (toolbar_script cid2 ?p1)) = fetch ?p1"
    using flag by (simp add: toolbar_script_fetch(1) [of cid2] patch_fetch_def)
  have first: "\<not> fetchPatched p \<Longrightarrow> fetch ?p1 = Interposer (fetch p)"
    by (simp add: toolbar_script_fetch patch_fetch_def)
  show ?thesis using second first by simp
qed

theorem fetch_interposer_idempotent_witness:
  "\<not> fetchPatched \<lparr>fetchPatched = False, fetch = NativeFetch, figma = FigmaApi, captureCalls = []\<rparr>
   \<and> fetch (snd (toolbar_script ''c2'' (snd (toolbar_script ''c1''
        \<lparr>fetchPatched = False, fetch = NativeFetch, figma = FigmaApi, captureCalls = []\<rparr>))))
     = Interposer NativeFetch"
  using fetch_interposer_idempotent [of "''c2''" "''c1''"
    "\<lparr>fetchPatched = False, fetch = NativeFetch, figma = FigmaApi, captureCalls = []\<rparr>"]
  by auto

section \<open>Properties of the listener registry\<close>

lemma provider_on_trace:
  "provider_on ev fn st = Inr st' \<Longrightarrow> invoked st' = invoked st \<and> console st' = console st"
  by (auto simp: provider_on_def split: slot.splits)

lemma provider_removeListener_trace:
  "provider_removeListener ev fn st = Inr st' \<Longrightarrow>
     invoked st' = invoked st \<and> console st' = console st"
  by (auto simp: provider_removeListener_def split: slot.splits)

lemma provider_removeAllListeners_trace:
  "invoked (provider_removeAllListeners ev st) = invoked st
   \<and> console (provider_removeAllListeners ev st) = console st"
  by (simp add: provider_removeAllListeners_def split: option.splits)

lemma run_cb_actions_trace:
  "run_cb_actions as st = (r, st') \<Longrightarrow> invoked st' = invoked st \<and> console st' = console st"
proof (induction as arbitrary: st)
  case Nil
  then show ?case by simp
next
  case (Cons x as)
  show ?case
  proof (cases x)
    case (DoOn ev fn)
    show ?thesis
    proof (cases "provider_on ev fn st")
      case (Inl e)
      with Cons.prems DoOn show ?thesis by simp
    next
      case (Inr st1)
      with Cons.prems DoOn have "run_cb_actions as st1 = (r, st')" by simp
      then have "invoked st' = invoked st1 \<and> console st' = console st1" by (rule Cons.IH)
      with provider_on_trace [OF Inr] show ?thesis by simp
    qed
  next
    case (DoRemoveListener ev fn)
    show ?thesis
    proof (cases "provider_removeListener ev fn st")
      case (Inl e)
      with Cons.prems DoRemoveListener show ?thesis by simp
    next
      case (Inr st1)
      with Cons.prems DoRemoveListener have "run_cb_actions as st1 = (r, st')" by simp
      then have "invoked st' = invoked st1 \<and> console st' = console st1" by (rule Cons.IH)
      with provider_removeListener_trace [OF Inr] show ?thesis by simp
    qed
  next
    case (DoRemoveAllListeners ev)
    with Cons.prems have "run_cb_actions as (provider_removeAllListeners ev st) = (r, st')"
      by simp
    then have "invoked st' = invoked (provider_removeAllListeners ev st)
        \<and> console st' = console (provider_removeAllListeners ev st)" by (rule Cons.IH)
    with provider_removeAllListeners_trace [of ev st] show ?thesis by simp
  next
    case (DoThrow e)
    with Cons.prems show ?thesis by simp
  qed
qed

lemma call_callback_trace:
  "call_callback behaviour fn args st = (r, st') \<Longrightarrow>
     invoked st' = invoked st \<and> console st' = console st"
proof (induction fn arbitrary: st r st')
  case (PageFn i)
  then show ?case using run_cb_actions_trace by simp
next
  case (OnceWrapper n ev fn)
  then show ?case
    by (cases "provider_removeListener ev (OnceWrapper n ev fn) st")
       (auto dest: provider_removeListener_trace)
qed

lemma emit_each_invoked:
  "invoked (emit_each behaviour fns args st) = invoked st @ map (\<lambda>fn. (fn, args)) fns"
proof (induction fns arbitrary: st)
  case Nil
  then show ?case by simp
next
  case (Cons fn fns)
  let ?st1 = "st\<lparr>invoked := invoked st @ [(fn, args)]\<rparr>"
  obtain r st2 where c: "call_callback behaviour fn args ?st1 = (r, st2)"
    by (cases "call_callback behaviour fn args ?st1")
  then have i: "invoked st2 = invoked st @ [(fn, args)]"
    using call_callback_trace by fastforce
  show ?case
  proof (cases r)
    case None
    with c i Cons.IH [of st2] show ?thesis by (simp add: Let_def)
  next
    case (Some e)
    with c i Cons.IH [of "st2\<lparr>console := console st2 @ [e]\<rparr>"] show ?thesis
      by (simp add: Let_def)
  qed
qed

text \<open>
  For an event name that is not a member of \<^verbatim>\<open>Object.prototype\<close>, \<^verbatim>\<open>emit\<close>
  returns normally and calls every callback registered at emission time, once and in
  order, whatever the callbacks do: throw, register, remove.
\<close>

lemma emit_delivers_all:
  assumes "event \<notin> set object_prototype_names"
  shows "\<exists>st'. provider_emit behaviour event args st = Inr st'
           \<and> invoked st' = invoked st @ map (\<lambda>fn. (fn, args))
                 (case registry st event of Some cbs \<Rightarrow> cbs | None \<Rightarrow> [])"
  using assms
  by (simp add: provider_emit_def lookup_slot_def emit_each_invoked split: option.splits)

text \<open>
  C10 fails on the code for the event names inherited from \<^verbatim>\<open>Object.prototype\<close>: on a
  fresh provider \<^verbatim>\<open>emit('toString')\<close> throws a TypeError, because
  \<^verbatim>\<open>listeners['toString']\<close> is the inherited function and not an array; the claim
  says that \<^verbatim>\<open>emit\<close> never throws. No callback can be registered under such a
  name either, since \<^verbatim>\<open>on\<close> throws for the same reason.
\<close>

theorem provider_emit_inherited_name:
  "provider_emit behaviour ''toString'' args fresh_provider
     = Inl (mk_error ''TypeError'' ''(listeners[event] || []).forEach is not a function'')
   \<and> provider_on ''toString'' fn fresh_provider
     = Inl (mk_error ''TypeError'' ''listeners[event].push is not a function'')"
  by (simp add: provider_emit_def provider_on_def lookup_slot_def fresh_provider_def
      object_prototype_names_def not_a_function_def)

section \<open>Properties of the session log\<close>

lemma replace_colons_dots_clean:
  "CHR '':'' \<notin> set (replace_colons_dots s) \<and> CHR ''.'' \<notin> set (replace_colons_dots s)
   \<and> length (replace_colons_dots s) = length s"
  by (auto simp: replace_colons_dots_def)

lemma startSession_eq:
  "startSession env st =
     (path_join (logs_dir env) (replace_colons_dots (toISOString env (clock env (ticks st))) @ ''.log''),
      st\<lparr>ticks := Suc (ticks st),
         sessionStart := Some (clock env (ticks st)),
         sessionFile := Some (path_join (logs_dir env)
            (replace_colons_dots (toISOString env (clock env (ticks st))) @ ''.log'')),
         files := (files st)
           (path_join (logs_dir env)
              (replace_colons_dots (toISOString env (clock env (ticks st))) @ ''.log'')
            := files st (path_join (logs_dir env)
                 (replace_colons_dots (toISOString env (clock env (ticks st))) @ ''.log''))
               @ ''Session started: '' @ toISOString env (clock env (ticks st)) @ newline)\<rparr>)"
  by (simp add: startSession_def new_date_def appendFileSync_def Let_def)

lemma log_active:
  assumes "sessionFile st = Some f" "f \<noteq> []"
  shows "sessionFile (log env m st) = Some f"
    and "sessionStart (log env m st) = sessionStart st"
    and "ticks (log env m st) = Suc (ticks st)"
    and "files (log env m st) f = files st f @ log_line (toISOString env (clock env (ticks st))) m"
  using assms by (simp_all add: log_def no_session_file_def new_date_def appendFileSync_def)

lemma log_all_active:
  assumes "sessionFile st = Some f" "f \<noteq> []"
  shows "sessionFile (log_all env ms st) = Some f
       \<and> sessionStart (log_all env ms st) = sessionStart st
       \<and> ticks (log_all env ms st) = ticks st + length ms
       \<and> files (log_all env ms st) f = files st f @ stamped env (ticks st) ms"
  using assms(1)
proof (induction ms arbitrary: st)
  case Nil
  then show ?case by simp
next
  case (Cons m ms)
  note l = log_active [OF Cons.prems assms(2), of env m]
  from Cons.IH [OF l(1)] show ?case
    unfolding l by simp
qed

lemma endSession_active:
  assumes "sessionFile st = Some f" "f \<noteq> []" "sessionStart st = Some start"
  shows "sessionFile (endSession env figmaUrl st) = None
       \<and> sessionStart (endSession env figmaUrl st) = None
       \<and> files (endSession env figmaUrl st) f = files st f
          @ log_line (toISOString env (clock env (Suc (ticks st))))
              (''Session ended: '' @ toISOString env (clock env (ticks st)))
          @ log_line (toISOString env (clock env (Suc (Suc (ticks st)))))
              (duration_text (clock env (ticks st) - start))
          @ (case figmaUrl of
               Some u \<Rightarrow> if u \<noteq> []
                 then log_line (toISOString env (clock env (Suc (Suc (Suc (ticks st))))))
                        (''Figma URL: '' @ u)
                 else []
             | None \<Rightarrow> [])"
proof -
  define st1 where "st1 = st\<lparr>ticks := Suc (ticks st)\<rparr>"
  define e where "e = clock env (ticks st)"
  have s1: "sessionFile st1 = Some f" "ticks st1 = Suc (ticks st)" "files st1 f = files st f"
    using assms by (simp_all add: st1_def)
  define st2 where "st2 = log env (''Session ended: '' @ toISOString env e) st1"
  note l2 = log_active [OF s1(1) assms(2), of env "''Session ended: '' @ toISOString env e",
      folded st2_def]
  define st3 where "st3 = log env (duration_text (e - start)) st2"
  note l3 = log_active [OF l2(1) assms(2), of env "duration_text (e - start)", folded st3_def]
  note l4 = log_active [OF l3(1) assms(2), of env]
  note defs = endSession_def no_session_file_def new_date_def Let_def st1_def st2_def
    st3_def e_def
  have f3: "files st3 f = files st f
          @ log_line (toISOString env (clock env (Suc (ticks st))))
              (''Session ended: '' @ toISOString env (clock env (ticks st)))
          @ log_line (toISOString env (clock env (Suc (Suc (ticks st)))))
              (duration_text (clock env (ticks st) - start))"
    and t3: "ticks st3 = Suc (Suc (Suc (ticks st)))"
    unfolding l3 l2 s1 by (simp_all add: e_def)
  show ?thesis
  proof (cases figmaUrl)
    case None
    with assms have "endSession env figmaUrl st = st3\<lparr>sessionFile := None, sessionStart := None\<rparr>"
      by (simp add: defs)
    then show ?thesis using f3 None by simp
  next
    case (Some u)
    show ?thesis
    proof (cases "u = []")
      case True
      with assms Some
      have "endSession env figmaUrl st = st3\<lparr>sessionFile := None, sessionStart := None\<rparr>"
        by (simp add: defs)
      then show ?thesis using f3 Some True by simp
    next
      case False
      with assms Some
      have "endSession env figmaUrl st
          = (log env (''Figma URL: '' @ u) st3)\<lparr>sessionFile := None, sessionStart := None\<rparr>"
        by (simp add: defs)
      then show ?thesis using f3 t3 l4(4) [of "''Figma URL: '' @ u"] Some False
        by simp
    qed
  qed
qed

text \<open>
  C9 (amended). A session (start, any messages, end) writes to one file, named by the
  directory and the ISO text of the session start with every \<^verbatim>\<open>:\<close> and \<^verbatim>\<open>.\<close>
  replaced by \<^verbatim>\<open>-\<close>, followed by \<^verbatim>\<open>.log\<close>. It appends, in this order: the line
  \<^verbatim>\<open>Session started: <iso>\<close>, which has no bracketed prefix; for each message the
  text \<^verbatim>\<open>[<iso of the clock reading>] <message>\<close> and a newline; the bracketed lines
  \<^verbatim>\<open>Session ended: <iso of the end>\<close> and \<^verbatim>\<open>Duration: <m>m <s>s\<close>; and, when a
  non-empty Figma URL is given, a last bracketed line \<^verbatim>\<open>Figma URL: <url>\<close>. After
  that no session file is active.
\<close>

theorem session_log_format:
  assumes "session env messages figmaUrl st = (f, st')"
  shows "f = path_join (logs_dir env)
               (replace_colons_dots (toISOString env (clock env (ticks st))) @ ''.log'')
       \<and> CHR '':'' \<notin> set (replace_colons_dots (toISOString env (clock env (ticks st))))
       \<and> CHR ''.'' \<notin> set (replace_colons_dots (toISOString env (clock env (ticks st))))
       \<and> files st' f =
           files st f
           @ ''Session started: '' @ toISOString env (clock env (ticks st)) @ newline
           @ stamped env (Suc (ticks st)) messages
           @ log_line (toISOString env (clock env (ticks st + length messages + 2)))
               (''Session ended: '' @ toISOString env (clock env (ticks st + length messages + 1)))
           @ log_line (toISOString env (clock env (ticks st + length messages + 3)))
               (duration_text (clock env (ticks st + length messages + 1) - clock env (ticks st)))
           @ (case figmaUrl of
                Some u \<Rightarrow> if u \<noteq> []
                  then log_line (toISOString env (clock env (ticks st + length messages + 4)))
                         (''Figma URL: '' @ u)
                  else []
              | None \<Rightarrow> [])
       \<and> sessionFile st' = None"
proof -
  let ?f = "path_join (logs_dir env)
               (replace_colons_dots (toISOString env (clock env (ticks st))) @ ''.log'')"
  obtain st1 where s: "startSession env st = (?f, st1)"
    and st1: "sessionFile st1 = Some ?f" "sessionStart st1 = Some (clock env (ticks st))"
      "ticks st1 = Suc (ticks st)"
      "files st1 ?f = files st ?f @ ''Session started: '' @ toISOString env (clock env (ticks st)) @ newline"
    by (simp add: startSession_eq)
  have ne: "?f \<noteq> []" by (simp add: path_join_def)
  define st2 where "st2 = log_all env messages st1"
  from log_all_active [OF st1(1) ne, of env messages, folded st2_def]
  have st2: "sessionFile st2 = Some ?f" "sessionStart st2 = Some (clock env (ticks st))"
    "ticks st2 = Suc (ticks st + length messages)"
    "files st2 ?f = files st ?f @ ''Session started: '' @ toISOString env (clock env (ticks st))
        @ newline @ stamped env (Suc (ticks st)) messages"
    using st1 by simp_all
  note e = endSession_active [OF st2(1) ne st2(2), of env figmaUrl]
  from assms s have f: "f = ?f" and st': "st' = endSession env figmaUrl st2"
    by (simp_all add: session_def st2_def)
  have c: "CHR '':'' \<notin> set (replace_colons_dots (toISOString env (clock env (ticks st))))"
    "CHR ''.'' \<notin> set (replace_colons_dots (toISOString env (clock env (ticks st))))"
    using replace_colons_dots_clean by blast+
  have n: "ticks st + length messages + 1 = Suc (ticks st + length messages)"
    "ticks st + length messages + 2 = Suc (Suc (ticks st + length messages))"
    "ticks st + length messages + 3 = Suc (Suc (Suc (ticks st + length messages)))"
    "ticks st + length messages + 4 = Suc (Suc (Suc (Suc (ticks st + length messages))))"
    by simp_all
  show ?thesis
    unfolding f st' n using e c unfolding st2 by simp
qed


lemma duration_example: "duration_text (122000 - 0) = ''Duration: 2m 2s''"
  by (simp add: duration_text_def signed_modulo_int_def int_to_string_def to_radix.simps
      digit_char_def char_of_eqI)

theorem session_log_format_witness:
  "\<exists>st'. session scenario_logger_env [''URL: https://app.example''] None fresh_logger
            = (''/home/u/.figmaxxing/logs/2026-11-03T10-00-00-000Z.log'', st')
        \<and> files st' ''/home/u/.figmaxxing/logs/2026-11-03T10-00-00-000Z.log''
            = ''Session started: 2026-11-03T10:00:00.000Z'' @ newline
              @ ''[2026-11-03T10:00:00.000Z] URL: https://app.example'' @ newline
              @ ''[2026-11-03T10:00:00.000Z] Session ended: 2026-11-03T10:00:00.000Z'' @ newline
              @ ''[2026-11-03T10:00:00.000Z] Duration: 2m 2s'' @ newline"
proof -
  obtain f st' where r: "session scenario_logger_env [''URL: https://app.example''] None
      fresh_logger = (f, st')"
    by (cases "session scenario_logger_env [''URL: https://app.example''] None fresh_logger")
  have iso: "toISOString scenario_logger_env t = ''2026-11-03T10:00:00.000Z''" for t
    by (simp add: scenario_logger_env_def)
  have clk: "clock scenario_logger_env n = 61000 * int n" for n
    by (simp add: scenario_logger_env_def)
  have dir: "logs_dir scenario_logger_env = ''/home/u/.figmaxxing/logs''"
    by (simp add: scenario_logger_env_def)
  have fr: "ticks fresh_logger = 0" "files fresh_logger p = []" for p
    by (simp_all add: fresh_logger_def)
  have d: "duration_text 122000 = ''Duration: 2m 2s''"
    using duration_example by simp
  note t = session_log_format [OF r]
  from t [THEN conjunct1]
  have f: "f = ''/home/u/.figmaxxing/logs/2026-11-03T10-00-00-000Z.log''"
    by (simp add: iso clk dir fr path_join_def replace_colons_dots_def)
  from t [THEN conjunct2, THEN conjunct2, THEN conjunct2, THEN conjunct1]
  have c: "files st' f = ''Session started: 2026-11-03T10:00:00.000Z'' @ newline
              @ ''[2026-11-03T10:00:00.000Z] URL: https://app.example'' @ newline
              @ ''[2026-11-03T10:00:00.000Z] Session ended: 2026-11-03T10:00:00.000Z'' @ newline
              @ ''[2026-11-03T10:00:00.000Z] Duration: 2m 2s'' @ newline"
    by (simp add: iso clk fr log_line_def d)
  from r c show ?thesis unfolding f by simp
qed

text \<open>
  C9, as stated, fails on the first line of every session file: \<^verbatim>\<open>startSession\<close>
  appends \<^verbatim>\<open>Session started: <iso>\<close> itself, not through \<^verbatim>\<open>log\<close>, so the line
  does not have the form \<^verbatim>\<open>[<iso>] <message>\<close>.
\<close>

theorem session_log_format_counterexample:
  "fst (startSession scenario_logger_env fresh_logger)
     = ''/home/u/.figmaxxing/logs/2026-11-03T10-00-00-000Z.log''
   \<and> files (snd (startSession scenario_logger_env fresh_logger))
       ''/home/u/.figmaxxing/logs/2026-11-03T10-00-00-000Z.log''
     = ''Session started: 2026-11-03T10:00:00.000Z'' @ newline
   \<and> \<not> starts_with (''Session started: 2026-11-03T10:00:00.000Z'' @ newline) ''[''"
  by (simp add: startSession_eq scenario_logger_env_def fresh_logger_def path_join_def
      replace_colons_dots_def starts_with_def)

section \<open>Properties of the wallet store\<close>

lemma hex_digit_lower: "is_hex_digit c \<Longrightarrow> lower_hex_digit (lower_char c)"
proof -
  assume "is_hex_digit c"
  then consider "48 \<le> (of_char c :: nat) \<and> (of_char c :: nat) \<le> 57"
    | "97 \<le> (of_char c :: nat) \<and> (of_char c :: nat) \<le> 102"
    | "65 \<le> (of_char c :: nat) \<and> (of_char c :: nat) \<le> 70"
    by (auto simp: is_hex_digit_def unhex_def Let_def split: if_splits)
  then show ?thesis
  proof cases
    case 1
    then show ?thesis by (simp add: lower_char_def lower_hex_digit_def Let_def)
  next
    case 2
    then show ?thesis by (simp add: lower_char_def lower_hex_digit_def Let_def)
  next
    case 3
    then have "lower_char c = char_of (of_char c + 32 :: nat)"
      by (simp add: lower_char_def Let_def)
    moreover have "(of_char (char_of (of_char c + 32 :: nat)) :: nat) = of_char c + 32"
      using 3 by (simp)
    ultimately show ?thesis using 3 by (simp add: lower_hex_digit_def Let_def)
  qed
qed

lemma valid_key_canonical: "valid_private_key k \<Longrightarrow> canonical_key_form k"
proof -
  assume v: "valid_private_key k"
  then have "take 2 k = ''0x''" by (simp add: valid_private_key_def)
  then have "map lower_char (take 2 k) = ''0x''"
    by (simp add: lower_char_def)
  moreover have "list_all (\<lambda>c. lower_hex_digit (lower_char c)) (drop 2 k)"
    using v hex_digit_lower by (auto simp: valid_private_key_def list_all_iff)
  ultimately show ?thesis using v by (simp add: canonical_key_form_def valid_private_key_def)
qed


lemma add_wallet_result:
  "add_wallet w wfile = (Inr w', wfile') \<Longrightarrow>
     w' = w \<and> (\<exists>ws. loadWallets wfile = Inr ws \<and> wfile' = Stored (ws @ [w]))"
  by (cases "loadWallets wfile") (auto simp: add_wallet_def saveWallets_def)

lemma createWallet_invariant:
  assumes "valid_private_key generated" "createWallet d generated nm wfile = (Inr w, wfile')"
  shows "wallet_invariant d w
       \<and> (\<exists>ws. loadWallets wfile = Inr ws \<and> loadWallets wfile' = Inr (ws @ [w]))"
proof (cases "d generated")
  case (Inl e)
  with assms(2) show ?thesis by (simp add: createWallet_def)
next
  case (Inr a)
  with assms(2) have "add_wallet \<lparr>wallet_name = nm, address = a, privateKey = generated\<rparr> wfile
      = (Inr w, wfile')"
    by (simp add: createWallet_def)
  from add_wallet_result [OF this] Inr assms(1) show ?thesis
    by (auto simp: wallet_invariant_def valid_key_canonical loadWallets_def)
qed

lemma importWallet_invariant:
  assumes "importWallet d nm key wfile = (Inr w, wfile')"
  shows "wallet_invariant d w
       \<and> (\<exists>ws. loadWallets wfile = Inr ws \<and> loadWallets wfile' = Inr (ws @ [w]))"
proof (cases "valid_private_key key")
  case False
  with assms show ?thesis by (simp add: importWallet_def)
next
  case True
  show ?thesis
  proof (cases "d key")
    case (Inl e)
    with assms True show ?thesis by (simp add: importWallet_def)
  next
    case (Inr a)
    with assms True have "add_wallet \<lparr>wallet_name = nm, address = a, privateKey = key\<rparr> wfile
        = (Inr w, wfile')"
      by (simp add: importWallet_def)
    from add_wallet_result [OF this] Inr True show ?thesis
      by (auto simp: wallet_invariant_def valid_key_canonical loadWallets_def)
  qed
qed

lemma createEphemeralWallet_invariant:
  assumes "valid_private_key generated" "createEphemeralWallet d generated = Inr w"
  shows "wallet_invariant d w"
  using assms
  by (cases "d generated")
     (auto simp: createEphemeralWallet_def wallet_invariant_def valid_key_canonical)

lemma op_failure_keeps_file:
  "fst (createWallet d g nm wfile) = Inl e \<Longrightarrow> snd (createWallet d g nm wfile) = wfile"
  "fst (importWallet d nm k wfile) = Inl e \<Longrightarrow> snd (importWallet d nm k wfile) = wfile"
  "fst (deleteWallet a wfile) = Inl e \<Longrightarrow> snd (deleteWallet a wfile) = wfile"
  by (auto simp: createWallet_def importWallet_def deleteWallet_def add_wallet_def
      split: sum.splits if_splits)

lemma apply_store_op_ok:
  assumes "file_ok d wfile" "list_all valid_private_key (generated_keys [x])"
  shows "file_ok d (apply_store_op d x wfile)"
proof (cases x)
  case (Create g nm)
  obtain r wfile' where c: "createWallet d g nm wfile = (r, wfile')"
    by (cases "createWallet d g nm wfile")
  show ?thesis
  proof (cases r)
    case (Inl e)
    with c op_failure_keeps_file(1) [of d g nm wfile e] assms(1) Create show ?thesis by simp
  next
    case (Inr w)
    from assms(2) Create have "valid_private_key g" by simp
    from createWallet_invariant [OF this c [unfolded Inr]] assms(1) Create c show ?thesis
      by (auto simp: file_ok_def)
  qed
next
  case (Import nm k)
  obtain r wfile' where c: "importWallet d nm k wfile = (r, wfile')"
    by (cases "importWallet d nm k wfile")
  show ?thesis
  proof (cases r)
    case (Inl e)
    with c op_failure_keeps_file(2) [of d nm k wfile e] assms(1) Import show ?thesis by simp
  next
    case (Inr w)
    from importWallet_invariant [OF c [unfolded Inr]] assms(1) Import c show ?thesis
      by (auto simp: file_ok_def)
  qed
next
  case (Delete a)
  show ?thesis
  proof (cases "loadWallets wfile")
    case (Inl e)
    with assms(1) Delete show ?thesis by (simp add: deleteWallet_def)
  next
    case (Inr ws)
    with assms(1) have "list_all (wallet_invariant d) ws" by (simp add: file_ok_def)
    then have "list_all (wallet_invariant d) (filter (\<lambda>w. address w \<noteq> a) ws)"
      by (simp add: list_all_iff)
    with Inr Delete show ?thesis
      by (simp add: deleteWallet_def saveWallets_def file_ok_def loadWallets_def)
  qed
qed

lemma generated_keys_Cons:
  "list_all valid_private_key (generated_keys (x # xs)) \<longleftrightarrow>
     list_all valid_private_key (generated_keys [x]) \<and> list_all valid_private_key (generated_keys xs)"
  by (cases x) simp_all

lemma apply_store_ops_ok:
  "file_ok d wfile \<Longrightarrow> list_all valid_private_key (generated_keys ops) \<Longrightarrow>
     file_ok d (apply_store_ops d ops wfile)"
proof (induction ops arbitrary: wfile)
  case Nil
  then show ?case by simp
next
  case (Cons x xs)
  from Cons.prems(2) have g: "list_all valid_private_key (generated_keys [x])"
    "list_all valid_private_key (generated_keys xs)"
    using generated_keys_Cons by blast+
  from apply_store_op_ok [OF Cons.prems(1) g(1)] g(2) show ?case
    using Cons.IH by simp
qed

text \<open>
  C7 (amended). Every wallet returned by \<^verbatim>\<open>createWallet\<close>, \<^verbatim>\<open>importWallet\<close> and
  \<^verbatim>\<open>createEphemeralWallet\<close> has the address derived from its private key and a key of
  the canonical form, given that generated keys have the form. \<^verbatim>\<open>loadWallets\<close>
  returns the stored array as it is; every wallet it returns satisfies the same when the
  file came about from no file through the store's own operations.
\<close>

theorem wallet_store_invariant:
  assumes "list_all valid_private_key (generated_keys ops)" and "valid_private_key generated"
  shows "(\<forall>ws. loadWallets (apply_store_ops d ops Missing) = Inr ws
            \<longrightarrow> list_all (wallet_invariant d) ws)
       \<and> (\<forall>w wfile'. createWallet d generated nm wfile = (Inr w, wfile') \<longrightarrow> wallet_invariant d w)
       \<and> (\<forall>w wfile'. importWallet d nm key wfile = (Inr w, wfile') \<longrightarrow> wallet_invariant d w)
       \<and> (\<forall>w. createEphemeralWallet d generated = Inr w \<longrightarrow> wallet_invariant d w)"
proof -
  have "file_ok d Missing" by (simp add: file_ok_def loadWallets_def)
  from apply_store_ops_ok [OF this assms(1)]
  have "\<forall>ws. loadWallets (apply_store_ops d ops Missing) = Inr ws
            \<longrightarrow> list_all (wallet_invariant d) ws"
    by (simp add: file_ok_def)
  then show ?thesis
    using createWallet_invariant [OF assms(2)] importWallet_invariant
      createEphemeralWallet_invariant [OF assms(2)]
    by blast
qed

lemma scenario_key_valid: "valid_private_key scenario_key"
  by (simp add: valid_private_key_def scenario_key_def is_hex_digit_def unhex_def)

theorem wallet_store_invariant_witness:
  "list_all valid_private_key (generated_keys [Create scenario_key ''main''])
   \<and> valid_private_key scenario_key
   \<and> loadWallets (apply_store_ops (\<lambda>k. Inr ''0xADDR'') [Create scenario_key ''main''] Missing)
       = Inr [\<lparr>wallet_name = ''main'', address = ''0xADDR'', privateKey = scenario_key\<rparr>]
   \<and> wallet_invariant (\<lambda>k. Inr ''0xADDR'')
        \<lparr>wallet_name = ''main'', address = ''0xADDR'', privateKey = scenario_key\<rparr>"
proof -
  have g: "list_all valid_private_key (generated_keys [Create scenario_key ''main''])"
    using scenario_key_valid by simp
  have l: "loadWallets (apply_store_ops (\<lambda>k. Inr ''0xADDR'') [Create scenario_key ''main''] Missing)
       = Inr [\<lparr>wallet_name = ''main'', address = ''0xADDR'', privateKey = scenario_key\<rparr>]"
    by (simp add: createWallet_def add_wallet_def loadWallets_def saveWallets_def)
  from wallet_store_invariant [OF g scenario_key_valid, of "\<lambda>k. Inr ''0xADDR''"] l
  have "wallet_invariant (\<lambda>k. Inr ''0xADDR'')
        \<lparr>wallet_name = ''main'', address = ''0xADDR'', privateKey = scenario_key\<rparr>"
    by simp
  with g l scenario_key_valid show ?thesis by simp
qed

text \<open>
  C7, as stated, fails for \<^verbatim>\<open>loadWallets\<close>: a file holding a wallet whose key is not
  hexadecimal is returned as it is.
\<close>

theorem wallet_store_invariant_counterexample:
  "loadWallets (Stored [\<lparr>wallet_name = ''a'', address = ''0x1'', privateKey = ''nothex''\<rparr>])
     = Inr [\<lparr>wallet_name = ''a'', address = ''0x1'', privateKey = ''nothex''\<rparr>]
   \<and> \<not> canonical_key_form ''nothex''
   \<and> (\<forall>d. \<not> wallet_invariant d \<lparr>wallet_name = ''a'', address = ''0x1'', privateKey = ''nothex''\<rparr>)"
  by (simp add: loadWallets_def canonical_key_form_def wallet_invariant_def)

section \<open>Properties of the custom chain\<close>

lemma of_char_char_of_small: "n < 256 \<Longrightarrow> (of_char (char_of (n::nat)) :: nat) = n"
  by simp

lemma digit_char_code:
  "d < 16 \<Longrightarrow> (of_char (digit_char d) :: nat) = (if d < 10 then 48 + d else 87 + d)"
  by (simp add: digit_char_def)

lemma digit_char_lower_hex: "d < 16 \<Longrightarrow> lower_hex_digit (digit_char d)"
  by (simp add: lower_hex_digit_def digit_char_code Let_def)

lemma digit_char_value: "d < 16 \<Longrightarrow> hex_digit_value (digit_char d) = d"
  by (simp add: hex_digit_value_def unhex_def digit_char_code Let_def)

lemma digit_char_zero: "d < 16 \<Longrightarrow> digit_char d = CHR ''0'' \<longleftrightarrow> d = 0"
proof
  assume d: "d < 16" and "digit_char d = CHR ''0''"
  then have "(of_char (digit_char d) :: nat) = 48" by simp
  with d show "d = 0" by (simp add: digit_char_code split: if_splits)
next
  assume "d < 16" "d = 0"
  then show "digit_char d = CHR ''0''" by (simp add: digit_char_def char_of_eqI)
qed

lemma hex_value_snoc: "hex_value (s @ [c]) = 16 * hex_value s + hex_digit_value c"
  by (simp add: hex_value_def)

lemma to_radix_16_small: "n < 16 \<Longrightarrow> to_radix 16 n = [digit_char n]"
  by (subst to_radix.simps) simp

lemma to_radix_16_large:
  "16 \<le> n \<Longrightarrow> to_radix 16 n = to_radix 16 (n div 16) @ [digit_char (n mod 16)]"
  by (subst to_radix.simps) simp

lemma to_radix_16_digits: "list_all lower_hex_digit (to_radix 16 n)"
proof (induction n rule: less_induct)
  case (less n)
  show ?case
  proof (cases "n < 16")
    case True
    then show ?thesis by (simp add: to_radix_16_small digit_char_lower_hex)
  next
    case False
    then have "n div 16 < n" by simp
    then have "list_all lower_hex_digit (to_radix 16 (n div 16))" by (rule less.IH)
    with False show ?thesis by (simp add: to_radix_16_large digit_char_lower_hex)
  qed
qed

lemma to_radix_16_value: "hex_value (to_radix 16 n) = n"
proof (induction n rule: less_induct)
  case (less n)
  show ?case
  proof (cases "n < 16")
    case True
    then show ?thesis by (simp add: to_radix_16_small hex_value_def digit_char_value)
  next
    case False
    then have "n div 16 < n" by simp
    then have "hex_value (to_radix 16 (n div 16)) = n div 16" by (rule less.IH)
    with False show ?thesis
      by (simp add: to_radix_16_large hex_value_snoc digit_char_value)
  qed
qed

lemma to_radix_16_leading:
  "0 < n \<Longrightarrow> \<exists>c cs. to_radix 16 n = c # cs \<and> c \<noteq> CHR ''0''"
proof (induction n rule: less_induct)
  case (less n)
  show ?case
  proof (cases "n < 16")
    case True
    with less.prems show ?thesis by (simp add: to_radix_16_small digit_char_zero)
  next
    case False
    then have "n div 16 < n" "0 < n div 16" by (simp_all add: div_greater_zero_iff)
    then obtain c cs where "to_radix 16 (n div 16) = c # cs" "c \<noteq> CHR ''0''"
      using less.IH by blast
    with False show ?thesis by (simp add: to_radix_16_large)
  qed
qed

lemma to_radix_16_lowercase_hex: "0 < n \<Longrightarrow> lowercase_hex_of n (to_radix 16 n)"
proof -
  assume "0 < n"
  then obtain c cs where "to_radix 16 n = c # cs" "c \<noteq> CHR ''0''"
    using to_radix_16_leading by blast
  then have "case to_radix 16 n of [] \<Rightarrow> False | c # cs \<Rightarrow> c \<noteq> CHR ''0'' \<or> cs = []"
    by simp
  then show ?thesis
    using to_radix_16_digits to_radix_16_value by (simp add: lowercase_hex_of_def)
qed

lemma step_picker_invariant:
  "picker_invariant st \<Longrightarrow> picker_invariant (fst (step_picker pr e st))"
proof (cases e)
  case (Select v)
  assume "picker_invariant st"
  with Select show ?thesis
    by (auto simp: picker_invariant_def handleSelect_def)
next
  case (ChangeCustomId v)
  assume "picker_invariant st"
  with ChangeCustomId show ?thesis by (auto simp: picker_invariant_def)
next
  case SubmitCustomId
  assume "picker_invariant st"
  with SubmitCustomId show ?thesis
    by (auto simp: picker_invariant_def handleCustomIdSubmit_def Let_def)
next
  case (ChangeCustomRpc v)
  assume "picker_invariant st"
  with ChangeCustomRpc show ?thesis by (auto simp: picker_invariant_def)
next
  case SubmitCustomRpc
  assume "picker_invariant st"
  with SubmitCustomRpc show ?thesis
    by (auto simp: picker_invariant_def handleCustomRpcSubmit_def Let_def)
qed

lemma run_picker_invariant:
  "picker_invariant st \<Longrightarrow> picker_invariant (run_picker pr es st)"
  by (induction es arbitrary: st) (simp_all add: step_picker_invariant)

lemma initial_picker_invariant: "picker_invariant initial_picker"
  by (simp add: picker_invariant_def initial_picker_def)

text \<open>
  C8 (amended). Whenever the chain picker, after any sequence of user actions, hands a
  chain to \<^verbatim>\<open>onComplete\<close> from the custom RPC screen, \<^verbatim>\<open>parseInt\<close> of the entered
  id is a number greater than zero (an integer \<open>n > 0\<close> or \<^verbatim>\<open>Infinity\<close>), the
  entered URL starts with \<^verbatim>\<open>http://\<close> or \<^verbatim>\<open>https://\<close>, and the chain has that
  number as id, the entered URL as \<^verbatim>\<open>rpc\<close>, \<^verbatim>\<open>0x\<close> followed by
  \<^verbatim>\<open>id.toString(16)\<close> as \<^verbatim>\<open>hexId\<close> and \<^verbatim>\<open>Custom (id)\<close> as name. When the
  id is an integer \<open>n\<close> up to \<^verbatim>\<open>2^53\<close>, the \<^verbatim>\<open>hexId\<close> is \<^verbatim>\<open>0x\<close> followed
  by the lowercase hexadecimal numeral of \<open>n\<close> and the name is \<^verbatim>\<open>Custom (n)\<close>
  with the decimal numeral of \<open>n\<close>.
\<close>

theorem custom_chain_construction:
  assumes "st = run_picker pr events initial_picker"
    and "step_picker pr SubmitCustomRpc st = (st', Some c)"
  shows "(parseInt10 (customId st) = PosInfinity
            \<or> (\<exists>n. 0 < n \<and> parseInt10 (customId st) = Num n))
       \<and> (starts_with (customRpc st) ''http://'' \<or> starts_with (customRpc st) ''https://'')
       \<and> chain_id c = parseInt10 (customId st)
       \<and> rpc c = customRpc st
       \<and> hexId c = ''0x'' @ number_to_radix pr 16 (chain_id c)
       \<and> chain_name c = ''Custom ('' @ number_text pr (chain_id c) @ '')''
       \<and> (\<forall>n. chain_id c = Num n \<and> n \<le> 2 ^ 53 \<longrightarrow>
              take 2 (hexId c) = ''0x''
            \<and> lowercase_hex_of (nat n) (drop 2 (hexId c))
            \<and> chain_name c = ''Custom ('' @ int_to_string n @ '')'')"
proof -
  let ?id = "parseInt10 (customId st)"
  have inv: "picker_invariant st"
    unfolding assms(1) using initial_picker_invariant by (rule run_picker_invariant)
  from assms(2) have scr: "subScreen st = CustomRpcScreen"
    by (simp split: if_splits)
  with inv have acc: "\<not> isNaN ?id" "\<not> number_le_zero ?id"
    by (simp_all add: picker_invariant_def)
  then have pos: "?id = PosInfinity \<or> (\<exists>n. 0 < n \<and> ?id = Num n)"
    by (rule accepted_number)
  from assms(2) scr have h: "handleCustomRpcSubmit pr (customRpc st) st = (st', Some c)"
    by simp
  then have u: "starts_with (customRpc st) ''http://'' \<or> starts_with (customRpc st) ''https://''"
    by (auto simp: handleCustomRpcSubmit_def split: if_splits)
  with h have c: "c = \<lparr>chain_id = ?id,
                    chain_name = ''Custom ('' @ number_text pr ?id @ '')'',
                    hexId = ''0x'' @ number_to_radix pr 16 ?id,
                    rpc = customRpc st\<rparr>"
    by (auto simp: handleCustomRpcSubmit_def Let_def split: if_splits)
  have small: "take 2 (hexId c) = ''0x'' \<and> lowercase_hex_of (nat n) (drop 2 (hexId c))
      \<and> chain_name c = ''Custom ('' @ int_to_string n @ '')''"
    if n: "chain_id c = Num n" "n \<le> 2 ^ 53" for n
  proof -
    from n(1) c have id: "?id = Num n" by simp
    with acc(2) have n0: "0 < n" by simp
    have "lowercase_hex_of (nat n) (to_radix 16 (nat n))"
      using n0 by (intro to_radix_16_lowercase_hex) simp
    moreover have "number_to_radix pr 16 (Num n) = to_radix 16 (nat n)"
      using n0 n(2) by (rule number_to_radix_exact)
    moreover have "number_text pr (Num n) = int_to_string n"
      using n0 n(2) by (intro number_text_exact) simp
    ultimately show ?thesis using c id by simp
  qed
  from c have "chain_id c = ?id" "rpc c = customRpc st"
    "hexId c = ''0x'' @ number_to_radix pr 16 (chain_id c)"
    "chain_name c = ''Custom ('' @ number_text pr (chain_id c) @ '')''"
    by simp_all
  with pos u small show ?thesis by blast
qed

text \<open>
  C8, as stated, fails: an id of 401 digits is accepted although \<^verbatim>\<open>parseInt\<close> of it
  is \<^verbatim>\<open>Infinity\<close>, not a positive integer, and the chain's \<^verbatim>\<open>hexId\<close> is
  \<^verbatim>\<open>0xInfinity\<close>, which is not a hexadecimal numeral. Beyond \<^verbatim>\<open>2^53\<close> the id is
  not the integer that was entered either: \<^verbatim>\<open>2^53 + 1\<close> is read as \<^verbatim>\<open>2^53\<close>.
\<close>

theorem custom_chain_construction_counterexample:
  "step_picker scenario_printer SubmitCustomRpc
     (run_picker scenario_printer
        [Select ''__custom__'', ChangeCustomId long_id, SubmitCustomId,
         ChangeCustomRpc ''https://rpc.example''] initial_picker)
   = (\<lparr>subScreen = CustomRpcScreen, customId = long_id,
       customRpc = ''https://rpc.example'', error = []\<rparr>,
      Some \<lparr>chain_id = PosInfinity, chain_name = ''Custom (Infinity)'',
             hexId = ''0xInfinity'', rpc = ''https://rpc.example''\<rparr>)
   \<and> parseInt10 long_id = PosInfinity
   \<and> \<not> list_all lower_hex_digit (drop 2 ''0xInfinity'')
   \<and> parseInt10 ''9007199254740993'' = Num 9007199254740992"
proof -
  have "\<not> list_all lower_hex_digit (drop 2 ''0xInfinity'')"
    using infinity_not_hex by simp
  then show ?thesis
    unfolding picker_long_id_state
    using picker_long_id_chain [of scenario_printer]
    by (simp only: parseInt10_long_id parseInt10_rounds infinity_chain_def simp_thms)
qed

theorem custom_chain_construction_witness:
  "step_picker scenario_printer SubmitCustomRpc
     (run_picker scenario_printer
        [Select ''__custom__'', ChangeCustomId ''137'', SubmitCustomId,
         ChangeCustomRpc ''https://polygon-rpc.com''] initial_picker)
   = (run_picker scenario_printer
        [Select ''__custom__'', ChangeCustomId ''137'', SubmitCustomId,
         ChangeCustomRpc ''https://polygon-rpc.com''] initial_picker,
      Some \<lparr>chain_id = Num 137, chain_name = ''Custom (137)'', hexId = ''0x89'',
             rpc = ''https://polygon-rpc.com''\<rparr>)
   \<and> lowercase_hex_of 137 ''89''"
proof -
  let ?es = "[Select ''__custom__'', ChangeCustomId ''137'', SubmitCustomId,
                  ChangeCustomRpc ''https://polygon-rpc.com'']"
  let ?c = "\<lparr>chain_id = Num 137, chain_name = ''Custom (137)'', hexId = ''0x89'',
             rpc = ''https://polygon-rpc.com''\<rparr>"
  have st: "run_picker scenario_printer ?es initial_picker
      = \<lparr>subScreen = CustomRpcScreen, customId = ''137'',
         customRpc = ''https://polygon-rpc.com'', error = []\<rparr>"
    by (simp add: initial_picker_def handleSelect_def handleCustomIdSubmit_def parseInt10_137
        isNaN_def)
  have d: "int_to_string 137 = ''137''" "to_radix 16 137 = ''89''"
    by (simp_all add: int_to_string_def to_radix.simps digit_char_def char_of_eqI)
  have r: "step_picker scenario_printer SubmitCustomRpc
        (run_picker scenario_printer ?es initial_picker)
      = (run_picker scenario_printer ?es initial_picker, Some ?c)"
    unfolding st
    by (simp add: handleCustomRpcSubmit_def starts_with_def parseInt10_137 number_text_exact
        number_to_radix_exact d)
  from custom_chain_construction [OF refl r, unfolded st]
  have "\<forall>n. chain_id ?c = Num n \<and> n \<le> 2 ^ 53 \<longrightarrow>
      lowercase_hex_of (nat n) (drop 2 (hexId ?c))"
    by blast
  then have "lowercase_hex_of 137 ''89''"
    by simp
  with r show ?thesis by simp
qed

section \<open>Properties of the capture bridge\<close>

























end
